theory Spec2Isabelle
  imports Main "HOL-Library.Sublist"
begin

section \<open>Strings\<close>

text \<open>
  A JavaScript string is a sequence of UTF-16 code units. The model keeps the code units
  below 256 (Latin-1), one \<open>char\<close> each, so \<open>length\<close> is the \<open>.length\<close> of the source.
  \<open>isWs\<close> is the white space of \<open>\s\<close> and of \<open>trim()\<close> in that range, \<open>isDigit\<close> is \<open>\d\<close>.
\<close>

definition isWs :: "char \<Rightarrow> bool" where
  "isWs c = (c \<in> set [CHR 0x09, CHR 0x0A, CHR 0x0B, CHR 0x0C, CHR 0x0D, CHR '' '', CHR 0xA0])"

definition isDigit :: "char \<Rightarrow> bool" where
  "isDigit c = (c \<in> set ''0123456789'')"

text \<open>\<open>toLowerCase()\<close>: the letters A-Z and the upper-case letters of Latin-1 (0xC0-0xDE
  without the multiplication sign 0xD7) move up by 32.\<close>

definition toLowerChar :: "char \<Rightarrow> char" where
  "toLowerChar c = (let n = (of_char c :: nat) in
     if (65 \<le> n \<and> n \<le> 90) \<or> (192 \<le> n \<and> n \<le> 222 \<and> n \<noteq> 215)
     then char_of (n + 32) else c)"

definition toLowerCase :: "string \<Rightarrow> string" where
  "toLowerCase s = map toLowerChar s"

text \<open>Case folding of the \<open>i\<close> flag, as far as the ASCII letters of the patterns need it.\<close>

definition toUpperAscii :: "char \<Rightarrow> char" where
  "toUpperAscii c = (let n = (of_char c :: nat) in
     if 97 \<le> n \<and> n \<le> 122 then char_of (n - 32) else c)"

definition trim :: "string \<Rightarrow> string" where
  "trim s = rev (dropWhile isWs (rev (dropWhile isWs s)))"

text \<open>\<open>s.includes(sub)\<close> and \<open>s.endsWith(q)\<close>.\<close>

definition startsWith :: "string \<Rightarrow> string \<Rightarrow> bool" where
  "startsWith s p = (take (length p) s = p)"

fun includes_str :: "string \<Rightarrow> string \<Rightarrow> bool" where
  "includes_str [] sub = (sub = [])"
| "includes_str (c # cs) sub = (startsWith (c # cs) sub \<or> includes_str cs sub)"

definition endsWith :: "string \<Rightarrow> string \<Rightarrow> bool" where
  "endsWith s q = (length q \<le> length s \<and> drop (length s - length q) s = q)"

text \<open>\<open>String(n)\<close> for a non-negative integer: its decimal digits.\<close>

definition digitChar :: "nat \<Rightarrow> char" where
  "digitChar d = char_of (48 + d)"

fun showNat :: "nat \<Rightarrow> string" where
  "showNat n = (if n < 10 then [digitChar n] else showNat (n div 10) @ [digitChar (n mod 10)])"

declare showNat.simps [simp del]

definition joinSp :: "string list \<Rightarrow> string" where
  "joinSp parts = (case parts of [] \<Rightarrow> [] | p # ps \<Rightarrow> foldl (\<lambda>acc q. acc @ '' '' @ q) p ps)"

text \<open>\<open>String(i)\<close> for an integer, and \<open>parts.join(',')\<close>.\<close>

definition showInt :: "int \<Rightarrow> string" where
  "showInt i = (if i < 0 then CHR ''-'' # showNat (nat (- i)) else showNat (nat i))"

definition joinComma :: "string list \<Rightarrow> string" where
  "joinComma parts = (case parts of [] \<Rightarrow> [] | p # ps \<Rightarrow> foldl (\<lambda>acc q. acc @ '','' @ q) p ps)"

section \<open>Regular expressions\<close>

text \<open>
  The patterns of the source are data of type \<open>re\<close>, matched by a backtracking matcher in
  the order of the JavaScript engine. \<open>rmatch r (s, cs)\<close> lists every way \<open>r\<close> matches a
  prefix of \<open>s\<close>, as the rest of the input and the captures, the engine's first choice first.
  \<open>Star\<close> is the greedy \<open>*\<close>, \<open>StarLazy\<close> is \<open>*?\<close>, \<open>Opt\<close> is \<open>?\<close>, \<open>Cap i\<close> is the i-th
  capturing group, \<open>Ahead\<close> is \<open>(?=...)\<close> and \<open>Eoi\<close> is \<open>$\<close> without the \<open>m\<close> flag. None of
  the patterns has a look-behind or a word boundary, so a match at a position depends on
  the text from that position on only. An iteration of a star that consumes nothing is
  dropped, as the engine does.
\<close>

datatype cclass = Digit | NonDigit | Space | Lit char | LitI char | NotI char | OneOf string

fun cls :: "cclass \<Rightarrow> char \<Rightarrow> bool" where
  "cls Digit c = isDigit c"
| "cls NonDigit c = (\<not> isDigit c)"
| "cls Space c = isWs c"
| "cls (Lit l) c = (c = l)"
| "cls (LitI l) c = (toUpperAscii c = toUpperAscii l)"
| "cls (NotI l) c = (toUpperAscii c \<noteq> toUpperAscii l)"
| "cls (OneOf ls) c = (c \<in> set ls)"

datatype re = Eps | Atom cclass | Seq re re | Alt re re | Star re | StarLazy re | Opt re
  | Cap nat re | Ahead re | Eoi

type_synonym captures = "(nat \<times> string) list"

type_synonym mstate = "string \<times> captures"

fun rmatch :: "re \<Rightarrow> mstate \<Rightarrow> mstate list" where
  "rmatch Eps st = [st]"
| "rmatch (Atom k) (s, cs) =
     (case s of [] \<Rightarrow> [] | c # t \<Rightarrow> if cls k c then [(t, cs)] else [])"
| "rmatch (Seq a b) st = concat (map (rmatch b) (rmatch a st))"
| "rmatch (Alt a b) st = rmatch a st @ rmatch b st"
| "rmatch (Opt a) st = rmatch a st @ [st]"
| "rmatch (Star a) (s, cs) =
     concat (map (\<lambda>(s', cs'). if length s' < length s then rmatch (Star a) (s', cs') else [])
                 (rmatch a (s, cs))) @ [(s, cs)]"
| "rmatch (StarLazy a) (s, cs) =
     (s, cs) # concat (map (\<lambda>(s', cs'). if length s' < length s
                                         then rmatch (StarLazy a) (s', cs') else [])
                           (rmatch a (s, cs)))"
| "rmatch (Cap i a) (s, cs) =
     map (\<lambda>(s', cs'). (s', (i, take (length s - length s') s) # cs')) (rmatch a (s, cs))"
| "rmatch (Ahead a) st = (case rmatch a st of [] \<Rightarrow> [] | _ # _ \<Rightarrow> [st])"
| "rmatch Eoi (s, cs) = (if s = [] then [(s, cs)] else [])"

definition rplus :: "re \<Rightarrow> re" where
  "rplus r = Seq r (Star r)"

definition rplusLazy :: "re \<Rightarrow> re" where
  "rplusLazy r = Seq r (StarLazy r)"

definition seqs :: "re list \<Rightarrow> re" where
  "seqs rs = foldr Seq rs Eps"

definition lit :: "string \<Rightarrow> re" where
  "lit s = seqs (map (\<lambda>c. Atom (Lit c)) s)"

definition litI :: "string \<Rightarrow> re" where
  "litI s = seqs (map (\<lambda>c. Atom (LitI c)) s)"

text \<open>\<open>groupOf m i\<close> is \<open>m[i]\<close> of a match; a group that took no part reads as the empty
  string, which the source treats like \<open>undefined\<close> (both are falsy).\<close>

definition groupOf :: "captures \<Rightarrow> nat \<Rightarrow> string" where
  "groupOf m i = (case map_of m i of None \<Rightarrow> [] | Some s \<Rightarrow> s)"

text \<open>
  \<open>Array.from(s.matchAll(r))\<close> for a pattern with the \<open>g\<close> flag: the leftmost match from the
  current position, then on from the end of that match (one code unit further after an
  empty match).
\<close>

function matchAllFrom :: "re \<Rightarrow> string \<Rightarrow> captures list" where
  "matchAllFrom r s =
     (case rmatch r (s, []) of
        [] \<Rightarrow> (case s of [] \<Rightarrow> [] | _ # t \<Rightarrow> matchAllFrom r t)
      | (s', cs) # _ \<Rightarrow>
          cs # (if length s' < length s then matchAllFrom r s'
                else (case s of [] \<Rightarrow> [] | _ # t \<Rightarrow> matchAllFrom r t)))"
  by pat_completeness auto
termination
  by (relation "measure (\<lambda>(r, s). length s)") auto

declare matchAllFrom.simps [simp del]

text \<open>
  \<open>s.replace(r, rep)\<close> for a pattern with the \<open>g\<close> flag and a replacement without \<open>$\<close>.
\<close>

function replaceAllFrom :: "re \<Rightarrow> string \<Rightarrow> string \<Rightarrow> string" where
  "replaceAllFrom r rep s =
     (case rmatch r (s, []) of
        [] \<Rightarrow> (case s of [] \<Rightarrow> [] | c # t \<Rightarrow> c # replaceAllFrom r rep t)
      | (s', cs) # _ \<Rightarrow>
          (if length s' < length s then rep @ replaceAllFrom r rep s'
           else rep @ (case s of [] \<Rightarrow> [] | c # t \<Rightarrow> c # replaceAllFrom r rep t)))"
  by pat_completeness auto
termination
  by (relation "measure (\<lambda>(r, rep, s). length s)") auto

declare replaceAllFrom.simps [simp del]

text \<open>
  \<open>s.split(r)\<close> for a pattern without capturing groups that never matches the empty
  string (both separators of the source are such): \<open>cur\<close> is the piece collected since
  the last separator, reversed.
\<close>

function splitFrom :: "re \<Rightarrow> string \<Rightarrow> string \<Rightarrow> string list" where
  "splitFrom r cur s =
     (case s of
        [] \<Rightarrow> [rev cur]
      | c # t \<Rightarrow>
          (case rmatch r (s, []) of
             [] \<Rightarrow> splitFrom r (c # cur) t
           | (s', cs) # _ \<Rightarrow>
               (if length s' < length s then rev cur # splitFrom r [] s'
                else splitFrom r (c # cur) t)))"
  by pat_completeness auto
termination
  by (relation "measure (\<lambda>(r, cur, s). length s)") auto

declare splitFrom.simps [simp del]

definition split_re :: "re \<Rightarrow> string \<Rightarrow> string list" where
  "split_re r s = splitFrom r [] s"

subsection \<open>The patterns of the source\<close>

definition digits1 :: re where
  "digits1 = rplus (Atom Digit)"

definition dotDigits :: re where
  "dotDigits = Seq (Atom (Lit CHR ''.'')) digits1"

definition articleMarker :: re where
  "articleMarker = seqs [lit ''Article'', Star (Atom Space), Atom (Lit CHR ''('')]"

text \<open>\<^verbatim>\<open>/(\d+\.\d+(?:\.\d+)*(?:\.\d+)?)\s+([^\d]+?)(?=\d+\.\d+(?:\.\d+)*|Article\s*\(|$)/gs\<close>\<close>

definition numberedPattern :: re where
  "numberedPattern = seqs
     [Cap 1 (seqs [digits1, dotDigits, Star dotDigits, Opt dotDigits]),
      rplus (Atom Space),
      Cap 2 (rplusLazy (Atom NonDigit)),
      Ahead (Alt (seqs [digits1, dotDigits, Star dotDigits]) (Alt articleMarker Eoi))]"

text \<open>\<^verbatim>\<open>/Article\s*\((\d+)\)(?:\s*[:])?\s*([^A]+?)(?=Article\s*\(|$)/gis\<close>\<close>

definition articlePattern :: re where
  "articlePattern = seqs
     [litI ''Article'', Star (Atom Space), Atom (Lit CHR ''(''), Cap 1 digits1,
      Atom (Lit CHR '')''),
      Opt (Seq (Star (Atom Space)) (Atom (Lit CHR '':''))),
      Star (Atom Space),
      Cap 2 (rplusLazy (Atom (NotI CHR ''A''))),
      Ahead (Alt (seqs [litI ''Article'', Star (Atom Space), Atom (Lit CHR ''('')]) Eoi)]"

text \<open>\<^verbatim>\<open>/(\d+\.\d+)\s+([^\d]+?)(?=\d+\.\d+|Article\s*\(|$)/gs\<close>\<close>

definition sectionPattern :: re where
  "sectionPattern = seqs
     [Cap 1 (seqs [digits1, dotDigits]),
      rplus (Atom Space),
      Cap 2 (rplusLazy (Atom NonDigit)),
      Ahead (Alt (seqs [digits1, dotDigits]) (Alt articleMarker Eoi))]"

text \<open>\<^verbatim>\<open>/\s+/g\<close>, \<^verbatim>\<open>/_/g\<close>, \<^verbatim>\<open>/[.!?]+/\<close> and \<^verbatim>\<open>/\n\s*\n/\<close>.\<close>

definition wsRun :: re where
  "wsRun = rplus (Atom Space)"

definition underscore :: re where
  "underscore = Atom (Lit CHR ''_'')"

definition sentenceEnd :: re where
  "sentenceEnd = rplus (Atom (OneOf ''.!?''))"

definition blankLine :: re where
  "blankLine = seqs [Atom (Lit CHR 0x0A), Star (Atom Space), Atom (Lit CHR 0x0A)]"

text \<open>\<open>t.replace(/\s+/g, ' ')\<close>.\<close>

definition collapseWs :: "string \<Rightarrow> string" where
  "collapseWs t = replaceAllFrom wsRun '' '' t"

text \<open>\<open>t.split(/[.!?]+/)[0]?.trim() || ''\<close>: a split never returns an empty array here.\<close>

definition firstSentence :: "string \<Rightarrow> string" where
  "firstSentence t = (case split_re sentenceEnd t of [] \<Rightarrow> [] | p # ps \<Rightarrow> trim p)"

section \<open>Documents and records\<close>

text \<open>
  A parsed document (\<open>any\<close> in the source) is a JSON value; an object lists its own
  properties with distinct keys. \<open>undefined\<close> and \<open>null\<close> are both \<open>JNull\<close>: the source never
  tells them apart. Numbers are integers, of a size that JavaScript writes in decimal
  digits.
\<close>

datatype json = JNull | JBool bool | JNum int | JStr string | JArr "json list"
  | JObj "(string \<times> json) list"

text \<open>
  \<open>TypeError\<close> is the exception of a property read on \<open>null\<close> or \<open>undefined\<close>, of a call of
  \<open>trim\<close> on a value that has none, and of the conversion to a string of an object whose
  \<open>toString\<close> is not a function; the loader catches it and drops the document.
\<close>

datatype error = TypeError

text \<open>
  The interface \<open>NormalizedRecord\<close> declares every field but \<open>tags\<close> a string, and nothing
  checks it. \<open>normalizeRecord\<close> assembles the records from values of type \<open>any\<close>: there a
  field holds whatever value the document gave, and \<open>'v\<close> is \<open>json\<close>. The handlers read the
  records as the interface declares them: there \<open>'v\<close> is \<open>string\<close>. The standard comes from
  the file name and is a string in both.
\<close>

record 'v NormalizedRecord =
  standard :: string
  directiveCode :: 'v
  sectionCode :: 'v
  clauseId :: 'v
  title :: 'v
  "text" :: 'v
  facilityClass :: 'v
  "domain" :: 'v
  tags :: "json list"
  reference :: 'v

text \<open>A record of strings, as the record of JavaScript values that it is.\<close>

definition jsRecord :: "string NormalizedRecord \<Rightarrow> json NormalizedRecord" where
  "jsRecord r =
     \<lparr>standard = standard r, directiveCode = JStr (directiveCode r),
      sectionCode = JStr (sectionCode r), clauseId = JStr (clauseId r),
      title = JStr (title r), text = JStr (text r), facilityClass = JStr (facilityClass r),
      domain = JStr (domain r), tags = tags r, reference = JStr (reference r)\<rparr>"

definition bindE :: "error + 'a \<Rightarrow> ('a \<Rightarrow> error + 'b) \<Rightarrow> error + 'b" where
  "bindE m f = (case m of Inl e \<Rightarrow> Inl e | Inr x \<Rightarrow> f x)"

text \<open>A \<open>forEach\<close> whose body may throw: the first exception ends the loop.\<close>

fun sequenceE :: "(error + 'a) list \<Rightarrow> error + 'a list" where
  "sequenceE [] = Inr []"
| "sequenceE (m # ms) = bindE m (\<lambda>x. bindE (sequenceE ms) (\<lambda>xs. Inr (x # xs)))"

definition concatE :: "(error + 'a list) list \<Rightarrow> error + 'a list" where
  "concatE ms = bindE (sequenceE ms) (\<lambda>xss. Inr (concat xss))"

fun truthy :: "json \<Rightarrow> bool" where
  "truthy JNull = False"
| "truthy (JBool b) = b"
| "truthy (JNum n) = (n \<noteq> 0)"
| "truthy (JStr s) = (s \<noteq> [])"
| "truthy (JArr xs) = True"
| "truthy (JObj kvs) = True"

text \<open>
  \<open>get v k\<close> is \<open>v.k\<close> for a value that is not \<open>null\<close>: none of the names the source reads is
  a property of a string, a number, a boolean or an array.
\<close>

fun get :: "json \<Rightarrow> string \<Rightarrow> json" where
  "get (JObj kvs) k = (case map_of kvs k of None \<Rightarrow> JNull | Some v \<Rightarrow> v)"
| "get v k = JNull"

text \<open>\<open>a || b || ... || d\<close> with a string \<open>d\<close> last: the first truthy operand, else \<open>d\<close>.\<close>

fun firstTruthy :: "json list \<Rightarrow> string \<Rightarrow> json" where
  "firstTruthy [] d = JStr d"
| "firstTruthy (v # vs) d = (if truthy v then v else firstTruthy vs d)"

text \<open>\<open>v.name1 || v.name2 || ... || d\<close>: the value is copied as it is, of whatever type.\<close>

definition field :: "json \<Rightarrow> string list \<Rightarrow> string \<Rightarrow> json" where
  "field v names d = firstTruthy (map (get v) names) d"

text \<open>\<open>a || b\<close> where evaluating \<open>b\<close> may throw: \<open>b\<close> is evaluated only when \<open>a\<close> is falsy.\<close>

definition orElse :: "json \<Rightarrow> (error + json) \<Rightarrow> error + json" where
  "orElse a b = (if truthy a then Inr a else b)"

text \<open>\<open>Array.isArray(v.tags) ? v.tags : (v.tag ? [v.tag] : [])\<close>\<close>

definition tagsOf :: "json \<Rightarrow> json list" where
  "tagsOf v = (case get v ''tags'' of JArr ts \<Rightarrow> ts
                | _ \<Rightarrow> (if truthy (get v ''tag'') then [get v ''tag''] else []))"

text \<open>
  The conversion of a value to a string inside a template literal. An array is its elements
  converted and joined by commas, \<open>null\<close> elements as the empty string. An object is
  \<open>[object Object]\<close>, unless it has an own property \<open>toString\<close>: a parsed document holds no
  function, so that property cannot be called, the inherited \<open>valueOf\<close> gives back the
  object, and the conversion throws. The templates of the source never convert \<open>null\<close> or
  \<open>undefined\<close> itself: each part is a string, a number, or the value of a chain \<open>a || ''\<close>.
\<close>

fun toStr :: "json \<Rightarrow> error + string" where
  "toStr JNull = Inr ''null''"
| "toStr (JBool b) = Inr (if b then ''true'' else ''false'')"
| "toStr (JNum n) = Inr (showInt n)"
| "toStr (JStr s) = Inr s"
| "toStr (JArr xs) =
     bindE (sequenceE (map (\<lambda>x. if x = JNull then Inr [] else toStr x) xs))
       (\<lambda>strs. Inr (joinComma strs))"
| "toStr (JObj kvs) =
     (if map_of kvs ''toString'' \<noteq> None then Inl TypeError else Inr ''[object Object]'')"

text \<open>\<open>`${a} ${b} ...`\<close>: the parts converted in order and joined by single spaces.\<close>

definition template :: "json list \<Rightarrow> error + string" where
  "template parts = bindE (sequenceE (map toStr parts)) (\<lambda>strs. Inr (joinSp strs))"

section \<open>parseContentIntoClauses\<close>

text \<open>
  The parameters \<open>directiveCode\<close> and \<open>sectionCode\<close> are declared strings, but the callers pass
  what the document holds: they are values. A record of the segmenter: \<open>facilityClass\<close> is
  empty, there are no tags, and the reference is the template
  \<open>`${standard} ${directiveCode} ${sectionCode} ${clauseId}`.trim()\<close>, the only part of the
  record that may throw.
\<close>

definition segRecord ::
  "string \<Rightarrow> json \<Rightarrow> json \<Rightarrow> string \<Rightarrow> string \<Rightarrow> json \<Rightarrow> string
     \<Rightarrow> error + json NormalizedRecord" where
  "segRecord standard' directiveCode' sectionCode' domain' clauseId' title' text' =
     bindE (template [JStr standard', directiveCode', sectionCode', JStr clauseId'])
       (\<lambda>reference'.
     Inr \<lparr>standard = standard', directiveCode = directiveCode', sectionCode = sectionCode',
          clauseId = JStr clauseId', title = title', text = JStr text',
          facilityClass = JStr [], domain = JStr domain', tags = [],
          reference = JStr (trim reference')\<rparr>)"

text \<open>\<open>firstSentence.substring(0, 200) || fallback\<close>\<close>

definition titleOr :: "string \<Rightarrow> string \<Rightarrow> string" where
  "titleOr t fallback = (let ttl = take 200 (firstSentence t) in if ttl \<noteq> [] then ttl else fallback)"

text \<open>The cascade: the first of the three patterns with more than one match.\<close>

definition selectMatches :: "string \<Rightarrow> captures list" where
  "selectMatches content =
     (let numberedMatches = matchAllFrom numberedPattern content in
      if length numberedMatches > 1 then numberedMatches
      else
        let articleMatches = matchAllFrom articlePattern content in
        if length articleMatches > 1 then articleMatches
        else
          let sectionMatches = matchAllFrom sectionPattern content in
          if length sectionMatches > 1 then sectionMatches else [])"

text \<open>\<open>matches.forEach((match, index) => ...)\<close>\<close>

fun matchRecords ::
  "string \<Rightarrow> json \<Rightarrow> json \<Rightarrow> string \<Rightarrow> nat \<Rightarrow> captures list
     \<Rightarrow> error + json NormalizedRecord list" where
  "matchRecords standard' directiveCode' sectionCode' domain' index [] = Inr []"
| "matchRecords standard' directiveCode' sectionCode' domain' index (m # ms) =
     (let clauseId' = (if groupOf m 1 \<noteq> [] then groupOf m 1 else showNat (index + 1));
          text' = trim (collapseWs (trim (groupOf m 2)))
      in bindE (if length text' > 20
                then bindE (segRecord standard' directiveCode' sectionCode' domain' clauseId'
                              (let title' = titleOr text' (''Clause '' @ clauseId')
                               in JStr (if length title' > 0 then title'
                                        else ''Clause '' @ clauseId'))
                              (take 10000 text'))
                       (\<lambda>r. Inr [r])
                else Inr []) (\<lambda>pushed.
         bindE (matchRecords standard' directiveCode' sectionCode' domain' (index + 1) ms)
           (\<lambda>rest. Inr (pushed @ rest))))"

text \<open>\<open>content.split(/\n\s*\n/).filter(p => p.trim().length > 100)\<close>\<close>

definition paragraphsOf :: "string \<Rightarrow> string list" where
  "paragraphsOf content = filter (\<lambda>p. length (trim p) > 100) (split_re blankLine content)"

text \<open>\<open>paragraphs.forEach((para, index) => ...)\<close>, with the minimum length of the branch.\<close>

fun paragraphLoop ::
  "nat \<Rightarrow> string \<Rightarrow> json \<Rightarrow> json \<Rightarrow> string \<Rightarrow> nat \<Rightarrow> string list
     \<Rightarrow> error + json NormalizedRecord list" where
  "paragraphLoop minLen standard' directiveCode' sectionCode' domain' index [] = Inr []"
| "paragraphLoop minLen standard' directiveCode' sectionCode' domain' index (para # paras) =
     (let trimmed = collapseWs (trim para)
      in bindE (if length trimmed > minLen
                then bindE (segRecord standard' directiveCode' sectionCode' domain'
                              (showNat (index + 1))
                              (JStr (titleOr trimmed (''Requirement '' @ showNat (index + 1))))
                              (take 10000 trimmed))
                       (\<lambda>r. Inr [r])
                else Inr []) (\<lambda>pushed.
         bindE (paragraphLoop minLen standard' directiveCode' sectionCode' domain' (index + 1)
                  paras)
           (\<lambda>rest. Inr (pushed @ rest))))"

definition paragraphRecords ::
  "string \<Rightarrow> string \<Rightarrow> json \<Rightarrow> json \<Rightarrow> string \<Rightarrow> error + json NormalizedRecord list" where
  "paragraphRecords content standard' directiveCode' sectionCode' domain' =
     (let paragraphs = paragraphsOf content in
      if length paragraphs > 3
      then paragraphLoop 100 standard' directiveCode' sectionCode' domain' 0 paragraphs
      else paragraphLoop 50 standard' directiveCode' sectionCode' domain' 0 paragraphs)"

text \<open>
  The record of the whole text; its title is
  \<open>firstSentence.substring(0, 200) || sectionCode || 'Requirement'\<close>.
\<close>

definition wholeRecord ::
  "string \<Rightarrow> string \<Rightarrow> json \<Rightarrow> json \<Rightarrow> string \<Rightarrow> error + json NormalizedRecord" where
  "wholeRecord content standard' directiveCode' sectionCode' domain' =
     (let trimmed = take 10000 (collapseWs (trim content))
      in segRecord standard' directiveCode' sectionCode' domain' ''1''
           (firstTruthy [JStr (take 200 (firstSentence trimmed)), sectionCode'] ''Requirement'')
           trimmed)"

definition parseContentIntoClauses ::
  "string \<Rightarrow> string \<Rightarrow> json \<Rightarrow> json \<Rightarrow> string \<Rightarrow> error + json NormalizedRecord list" where
  "parseContentIntoClauses content standard' directiveCode' sectionCode' domain' =
     (if content = [] \<or> length (trim content) = 0 then Inr []
      else
        let matches = selectMatches content in
        bindE (if length matches > 0
               then matchRecords standard' directiveCode' sectionCode' domain' 0 matches
               else Inr []) (\<lambda>results1.
        bindE (if length results1 = 0 \<and> length content > 200
               then paragraphRecords content standard' directiveCode' sectionCode' domain'
               else Inr results1) (\<lambda>results2.
        if length results2 = 0 \<and> length content > 100
        then bindE (wholeRecord content standard' directiveCode' sectionCode' domain')
               (\<lambda>r. Inr [r])
        else Inr results2)))"

section \<open>normalizeRecord\<close>

text \<open>
  One clause object of a section, in both walks. Every field is copied from the document
  as it is. \<open>refLead\<close> holds the leading parts of the reference template: standard, directive
  code and section code in \<open>fromHcis\<close>, standard and section code in
  \<open>fromDocumentStructure\<close>; its last part is \<open>clause.clause_id || index + 1\<close>. The template is
  evaluated only when \<open>clause.reference\<close> is falsy.
\<close>

definition clauseRecord ::
  "string \<Rightarrow> json \<Rightarrow> json \<Rightarrow> string \<Rightarrow> json list \<Rightarrow> json \<Rightarrow> nat \<Rightarrow> json
     \<Rightarrow> error + json NormalizedRecord" where
  "clauseRecord standard' directiveCode' sectionCode' domain' refLead section index clause =
     (if clause = JNull then Inl TypeError
      else
        bindE (orElse (get clause ''reference'')
                 (bindE (template (refLead @
                           [if truthy (get clause ''clause_id'') then get clause ''clause_id''
                            else JNum (int (index + 1))]))
                    (\<lambda>t. Inr (JStr (trim t))))) (\<lambda>reference'.
        Inr \<lparr>standard = standard', directiveCode = directiveCode', sectionCode = sectionCode',
             clauseId = field clause [''clause_id'', ''id''] (showNat (index + 1)),
             title = firstTruthy [get clause ''title'', get clause ''heading'',
                                  get section ''section_title''] [],
             text = field clause [''text'', ''content'', ''requirement'', ''description''] [],
             facilityClass = field clause [''facility_class'', ''facilityClass'', ''class''] [],
             domain = JStr domain', tags = tagsOf clause, reference = reference'\<rparr>))"

text \<open>
  One section: the records of its clause objects when \<open>clauses\<close> is a non-empty array, then
  the records the segmenter makes of \<open>content\<close> when that is not blank.
\<close>

definition sectionRecords ::
  "string \<Rightarrow> json \<Rightarrow> string \<Rightarrow> bool \<Rightarrow> json \<Rightarrow> error + json NormalizedRecord list" where
  "sectionRecords standard' directiveCode' domain' withDirective section =
     (if section = JNull then Inl TypeError
      else
        let sectionCode' = field section [''section_code'', ''sectionCode''] [] in
        bindE (case get section ''clauses'' of
                 JArr (c # cs) \<Rightarrow>
                   sequenceE (map (\<lambda>(index, clause).
                       clauseRecord standard' directiveCode' sectionCode' domain'
                         (if withDirective then [JStr standard', directiveCode', sectionCode']
                          else [JStr standard', sectionCode'])
                         section index clause)
                     (enumerate 0 (c # cs)))
               | _ \<Rightarrow> Inr []) (\<lambda>fromClauses.
        bindE (if truthy (get section ''content'')
               then (case get section ''content'' of
                       JStr content \<Rightarrow>
                         if length (trim content) > 0
                         then parseContentIntoClauses content standard' directiveCode'
                                sectionCode' domain'
                         else Inr []
                     | _ \<Rightarrow> Inl TypeError)
               else Inr []) (\<lambda>parsed.
        Inr (fromClauses @ parsed))))"

text \<open>\<open>r.title || r.text\<close>, the test of both walks and of the fallback.\<close>

definition keep :: "json NormalizedRecord \<Rightarrow> bool" where
  "keep r = (truthy (title r) \<or> truthy (text r))"

definition fromHcis :: "json \<Rightarrow> string \<Rightarrow> string \<Rightarrow> error + json NormalizedRecord list" where
  "fromHcis raw standard' domain' =
     (case get raw ''directives'' of
        JArr directives \<Rightarrow>
          bindE (concatE (map (\<lambda>directive.
                   if directive = JNull then Inl TypeError
                   else
                     let directiveCode' = field directive [''directive_code'', ''directiveCode''] []
                     in case get directive ''structured_sections'' of
                          JArr sections \<Rightarrow>
                            concatE (map (sectionRecords standard' directiveCode' domain' True)
                                         sections)
                        | _ \<Rightarrow> Inr [])
                 directives))
            (\<lambda>results. Inr (filter keep results))
      | _ \<Rightarrow> Inr [])"

definition fromDocumentStructure ::
  "json \<Rightarrow> string \<Rightarrow> string \<Rightarrow> error + json NormalizedRecord list" where
  "fromDocumentStructure raw standard' domain' =
     (case get (get raw ''document'') ''structured_sections'' of
        JArr sections \<Rightarrow>
          bindE (concatE (map (sectionRecords standard' (JStr []) domain' False) sections))
            (\<lambda>results. Inr (filter keep results))
      | _ \<Rightarrow> Inr [])"

text \<open>
  The single record object of the fallback: one record, or none. The reference is
  \<open>record.reference || record.ref || `...`.trim() || ''\<close>.
\<close>

definition genericRecord :: "json \<Rightarrow> string \<Rightarrow> string \<Rightarrow> error + json NormalizedRecord list" where
  "genericRecord rec standard' domain' =
     bindE (orElse (get rec ''reference'') (orElse (get rec ''ref'')
              (bindE (template [JStr standard',
                                field rec [''directiveCode'', ''directive_code''] [],
                                field rec [''sectionCode'', ''section_code''] [],
                                field rec [''clauseId'', ''clause_id''] []])
                 (\<lambda>t. Inr (firstTruthy [JStr (trim t)] []))))) (\<lambda>reference'.
     let normalized =
           \<lparr>standard = standard',
            directiveCode = field rec [''directiveCode'', ''directive_code'', ''directive'',
                                       ''chapter'', ''section'', ''code''] [],
            sectionCode = field rec [''sectionCode'', ''section_code'', ''subsection'',
                                     ''article'', ''clause''] [],
            clauseId = field rec [''clauseId'', ''clause_id'', ''id'', ''clauseNumber'',
                                  ''number'', ''articleNumber''] [],
            title = field rec [''title'', ''heading'', ''name'', ''description''] [],
            text = field rec [''text'', ''content'', ''requirement'', ''clause'',
                              ''description''] [],
            facilityClass = field rec [''facilityClass'', ''facility_class'', ''class'',
                                       ''occupancy'', ''category''] [],
            domain = field rec [''domain''] domain',
            tags = tagsOf rec, reference = reference'\<rparr>
     in if truthy (title normalized) \<or> truthy (text normalized) then Inr [normalized]
        else Inr [])"

text \<open>
  The dispatch, in the order of the source: \<open>directives\<close> an array, then a truthy
  \<open>document.structured_sections\<close>, then an array (element by element), then the fallback.
  The \<open>filename\<close> argument is passed on and never read.
\<close>

fun normalizeRecord ::
  "json \<Rightarrow> string \<Rightarrow> string \<Rightarrow> string \<Rightarrow> error + json NormalizedRecord list" where
  "normalizeRecord JNull standard' domain' filename = Inl TypeError"
| "normalizeRecord (JArr items) standard' domain' filename =
     concatE (map (\<lambda>item. normalizeRecord item standard' domain' filename) items)"
| "normalizeRecord rec standard' domain' filename =
     (if (case get rec ''directives'' of JArr ds \<Rightarrow> True | _ \<Rightarrow> False)
      then fromHcis rec standard' domain'
      else if truthy (get rec ''document'')
              \<and> truthy (get (get rec ''document'') ''structured_sections'')
      then fromDocumentStructure rec standard' domain'
      else genericRecord rec standard' domain')"

text \<open>
  The loader, after the file is read and parsed and its standard and domain are derived
  from the file name: the records of a document are appended to the corpus, and a
  document that throws is logged and skipped, the later files being loaded all the same.
\<close>

fun loadData :: "(string \<times> string \<times> string \<times> json) list \<Rightarrow> json NormalizedRecord list" where
  "loadData [] = []"
| "loadData ((filename, standard', domain', jsonData) # files) =
     (case normalizeRecord jsonData standard' domain' filename of
        Inl e \<Rightarrow> loadData files
      | Inr normalized \<Rightarrow> normalized @ loadData files)"

section \<open>Queries\<close>

text \<open>
  The handlers read the corpus and the request body. The corpus is read as the interface
  declares its records, every field but the tags a string; a body field is a string or
  absent, as the request interfaces declare. The responses with status 400 and 404 are the
  errors.
\<close>

datatype queryError = ValidationError | NotFoundError

definition normalizeRefString :: "string \<Rightarrow> string" where
  "normalizeRefString ref =
     (if ref = [] then []
      else trim (collapseWs (replaceAllFrom underscore '' '' (toLowerCase ref))))"






text \<open>
  \<open>getReference\<close>: the body's \<open>reference\<close> is any value; one that is falsy or not a string is
  refused.
\<close>

definition getReference :: "string NormalizedRecord list \<Rightarrow> json \<Rightarrow> queryError + string NormalizedRecord" where
  "getReference normalizedData reference' =
     (case reference' of
        JStr q \<Rightarrow>
          if q = [] then Inl ValidationError
          else
            let refNorm = normalizeRefString q in
            (case find (\<lambda>r. normalizeRefString (reference r) = refNorm) normalizedData of
               Some result \<Rightarrow> Inr result
             | None \<Rightarrow>
                 (case find (\<lambda>r. endsWith (normalizeRefString (reference r)) refNorm)
                         normalizedData of
                    Some result \<Rightarrow> Inr result
                  | None \<Rightarrow> Inl NotFoundError))
      | _ \<Rightarrow> Inl ValidationError)"

text \<open>The checklist item: the record reshaped, \<open>requirement\<close> its text, \<open>mandatory\<close> true.\<close>

record ChecklistItem =
  item_standard :: string
  item_directiveCode :: string
  item_sectionCode :: string
  item_clauseId :: string
  item_domain :: string
  requirement :: string
  item_facilityClass :: string
  mandatory :: bool
  item_reference :: string

definition toChecklistItem :: "string NormalizedRecord \<Rightarrow> ChecklistItem" where
  "toChecklistItem r =
     \<lparr>item_standard = standard r, item_directiveCode = directiveCode r,
      item_sectionCode = sectionCode r, item_clauseId = clauseId r, item_domain = domain r,
      requirement = text r, item_facilityClass = facilityClass r, mandatory = True,
      item_reference = reference r\<rparr>"

text \<open>The hard filter: the record's standard contains one of the requested standards.\<close>

definition standardsFilter :: "string list \<Rightarrow> string NormalizedRecord list \<Rightarrow> string NormalizedRecord list" where
  "standardsFilter standards normalizedData =
     filter (\<lambda>r. list_ex (\<lambda>s. includes_str (toLowerCase (standard r)) (toLowerCase s)) standards)
       normalizedData"

definition softFacilityClass :: "string option \<Rightarrow> string NormalizedRecord list \<Rightarrow> string NormalizedRecord list" where
  "softFacilityClass facilityClass' results =
     (case facilityClass' of
        None \<Rightarrow> results
      | Some v \<Rightarrow>
          if v \<noteq> [] then
            let fc = toLowerCase v;
                withFc = filter (\<lambda>r. length (facilityClass r) > 0) results
            in if length withFc > 0 then
                 let filtered = filter (\<lambda>r. includes_str (toLowerCase (facilityClass r)) fc) withFc
                 in if length filtered > 0 then filtered else results
               else results
          else results)"

definition softDomains :: "string list option \<Rightarrow> string NormalizedRecord list \<Rightarrow> string NormalizedRecord list" where
  "softDomains domains results =
     (case domains of
        None \<Rightarrow> results
      | Some dl \<Rightarrow>
          if length dl > 0 then
            let ds = map toLowerCase dl;
                withDomain = filter (\<lambda>r. length (domain r) > 0) results
            in if length withDomain > 0 then
                 let filtered = filter (\<lambda>r. list_ex (\<lambda>d. includes_str (toLowerCase (domain r)) d) ds)
                                  withDomain
                 in if length filtered > 0 then filtered else results
               else results
          else results)"

definition generateChecklist ::
  "string NormalizedRecord list \<Rightarrow> string list option \<Rightarrow> string option \<Rightarrow> string list option
     \<Rightarrow> queryError + ChecklistItem list" where
  "generateChecklist normalizedData standards facilityClass' domains =
     (case standards of
        None \<Rightarrow> Inl ValidationError
      | Some sl \<Rightarrow>
          if length sl = 0 then Inl ValidationError
          else
            let results = standardsFilter sl normalizedData;
                results = softFacilityClass facilityClass' results;
                results = softDomains domains results
            in Inr (map toChecklistItem results))"

section \<open>The specification's wording, for comparison\<close>

text \<open>
  The reference normalisation as the specification words it: lower-case, underscores to
  spaces, every run of white space to one space, trimmed. It is written without the
  pattern matcher, to be compared with \<open>normalizeRefString\<close>.
\<close>

function collapseRuns :: "string \<Rightarrow> string" where
  "collapseRuns [] = []"
| "collapseRuns (c # t) =
     (if isWs c then CHR '' '' # collapseRuns (dropWhile isWs t) else c # collapseRuns t)"
  by pat_completeness auto
termination
  by (relation "measure length") (auto simp: less_Suc_eq_le length_dropWhile_le)

definition normalizeSpec :: "string \<Rightarrow> string" where
  "normalizeSpec s =
     trim (collapseRuns (map (\<lambda>c. if c = CHR ''_'' then CHR '' '' else c) (toLowerCase s)))"

text \<open>
  The soft filter as the specification words it: the test runs over the records that have
  a non-empty value of the attribute, and its hits replace the result set only when there
  is at least one.
\<close>

definition softFilter ::
  "(string NormalizedRecord \<Rightarrow> string) \<Rightarrow> (string \<Rightarrow> bool) \<Rightarrow> string NormalizedRecord list \<Rightarrow> string NormalizedRecord list" where
  "softFilter attr test results =
     (let candidates = filter (\<lambda>r. attr r \<noteq> []) results;
          hits = filter (\<lambda>r. test (attr r)) candidates
      in if hits \<noteq> [] then hits else results)"



text \<open>
  A string without white space at either end, and a string without two spaces in a row.
\<close>

definition trimmed :: "string \<Rightarrow> bool" where
  "trimmed s = (s = [] \<or> (\<not> isWs (hd s) \<and> \<not> isWs (last s)))"

fun noSpaceRun :: "string \<Rightarrow> bool" where
  "noSpaceRun (c # d # t) = (\<not> (c = CHR '' '' \<and> d = CHR '' '') \<and> noSpaceRun (d # t))"
| "noSpaceRun s = True"

text \<open>What every record of the segmenter satisfies.\<close>

definition segOk :: "json NormalizedRecord \<Rightarrow> bool" where
  "segOk r = ((case text r of JStr s \<Rightarrow> length s \<le> 10000 | _ \<Rightarrow> False)
              \<and> truthy (title r)
              \<and> (case reference r of JStr s \<Rightarrow> trimmed s | _ \<Rightarrow> False))"

text \<open>What the segmenter returns when no pattern is selected: the paragraph records of a
  text of more than 200 characters, else (or when there are none) the whole-text record of
  a text of more than 100 characters, else nothing.\<close>

definition fallbackRecords ::
  "string \<Rightarrow> string \<Rightarrow> json \<Rightarrow> json \<Rightarrow> string \<Rightarrow> error + json NormalizedRecord list" where
  "fallbackRecords content st dc sc dm =
     bindE (if 200 < length content then paragraphRecords content st dc sc dm else Inr [])
       (\<lambda>paras.
          if paras \<noteq> [] then Inr paras
          else if 100 < length content
          then bindE (wholeRecord content st dc sc dm) (\<lambda>r. Inr [r])
          else Inr [])"

text \<open>
  The record of one paragraph, as the specification words it: the paragraph trimmed and
  its white space collapsed is the text (cut at 10,000 characters), its first sentence the
  title, its position among the kept paragraphs, counted from 1, the clause id.
\<close>

definition paragraphRecord ::
  "string \<Rightarrow> json \<Rightarrow> json \<Rightarrow> string \<Rightarrow> nat \<Rightarrow> string \<Rightarrow> error + json NormalizedRecord" where
  "paragraphRecord st dc sc dm i p =
     segRecord st dc sc dm (showNat (i + 1))
       (JStr (titleOr (collapseWs (trim p)) (''Requirement '' @ showNat (i + 1))))
       (take 10000 (collapseWs (trim p)))"

text \<open>A character that no pattern of the source treats specially.\<close>

definition plainChar :: "char \<Rightarrow> bool" where
  "plainChar c = (\<not> isWs c \<and> \<not> isDigit c \<and> c \<notin> set ''.!?'' \<and> toUpperAscii c \<noteq> CHR ''A'')"

section \<open>Sample inputs\<close>

definition refCorpus :: "string NormalizedRecord list" where
  "refCorpus =
     [\<lparr>standard = ''HCIS_SEC'', directiveCode = ''SEC-01'', sectionCode = ''4.4'',
       clauseId = ''4.4.1'', title = ''Perimeter'', text = ''Perimeter fencing'',
       facilityClass = [], domain = ''security'', tags = [],
       reference = ''HCIS_SEC SEC-01 4.4.1''\<rparr>,
      \<lparr>standard = ''HCIS_SEC'', directiveCode = ''SEC-05'', sectionCode = ''4.3'',
       clauseId = ''4.3.2'', title = ''Gates'', text = ''Gates must be locked'',
       facilityClass = [], domain = ''security'', tags = [],
       reference = ''HCIS_SEC SEC-05 4.3.2''\<rparr>]"

text \<open>A document whose second record carries a reference of one space, and its records.\<close>

definition blankRefDoc :: json where
  "blankRefDoc =
     JArr [JObj [(''title'', JStr ''Fence''), (''reference'', JStr ''A 1'')],
           JObj [(''title'', JStr ''Gate''), (''reference'', JStr '' '')]]"

definition blankRefCorpus :: "string NormalizedRecord list" where
  "blankRefCorpus =
     [\<lparr>standard = ''STD'', directiveCode = [], sectionCode = [], clauseId = [],
       title = ''Fence'', text = [], facilityClass = [], domain = ''security'', tags = [],
       reference = ''A 1''\<rparr>,
      \<lparr>standard = ''STD'', directiveCode = [], sectionCode = [], clauseId = [],
       title = ''Gate'', text = [], facilityClass = [], domain = ''security'', tags = [],
       reference = '' ''\<rparr>]"

text \<open>A corpus of three records, two of them of the standard \<open>HCIS_SEC\<close>.\<close>

definition classCorpus :: "string NormalizedRecord list" where
  "classCorpus =
     [\<lparr>standard = ''HCIS_SEC'', directiveCode = ''SEC-01'', sectionCode = ''4.4'',
       clauseId = ''4.4.1'', title = ''Perimeter'', text = ''Perimeter fencing'',
       facilityClass = ''Class 1'', domain = ''security'', tags = [],
       reference = ''HCIS_SEC SEC-01 4.4.1''\<rparr>,
      \<lparr>standard = ''HCIS_SEC'', directiveCode = ''SEC-05'', sectionCode = ''4.3'',
       clauseId = ''4.3.2'', title = ''Gates'', text = ''Gates must be locked'',
       facilityClass = [], domain = ''security'', tags = [],
       reference = ''HCIS_SEC SEC-05 4.3.2''\<rparr>,
      \<lparr>standard = ''SBC_801'', directiveCode = [], sectionCode = ''9.1'',
       clauseId = ''1'', title = ''Sprinklers'', text = ''Sprinklers are required'',
       facilityClass = ''Class 9'', domain = ''fire'', tags = [],
       reference = ''SBC_801 9.1 1''\<rparr>]"

text \<open>
  The records of the sample documents hold strings only; they are written as records of
  strings, and \<open>jsRecord\<close> gives the record as \<open>normalizeRecord\<close> returns it.
\<close>

text \<open>
  A document with one directive, one section and two clause objects, the second without
  title and text, and the one record it loads as. A fallback document with a nested
  collection. A text of 10,001 characters in a fallback document and in a clause object.
\<close>

definition hcisDoc :: json where
  "hcisDoc =
     JObj [(''directives'', JArr
       [JObj [(''directive_code'', JStr ''SEC-05''),
              (''structured_sections'', JArr
                 [JObj [(''section_code'', JStr ''4.3''),
                        (''clauses'', JArr
                           [JObj [(''clause_id'', JStr ''4.3.1''),
                                  (''text'', JStr ''Fences are required'')],
                            JObj [(''clause_id'', JStr ''4.3.2'')]])]])]])]"

definition hcisRec :: "string NormalizedRecord" where
  "hcisRec =
     \<lparr>standard = ''STD'', directiveCode = ''SEC-05'', sectionCode = ''4.3'',
      clauseId = ''4.3.1'', title = [], text = ''Fences are required'', facilityClass = [],
      domain = ''security'', tags = [], reference = ''STD SEC-05 4.3 4.3.1''\<rparr>"

definition nestedDoc :: json where
  "nestedDoc =
     JObj [(''items'', JArr [JObj [(''title'', JStr ''Child'')]]),
           (''title'', JStr ''Parent'')]"

definition parentRec :: "string NormalizedRecord" where
  "parentRec =
     \<lparr>standard = ''STD'', directiveCode = [], sectionCode = [], clauseId = [],
      title = ''Parent'', text = [], facilityClass = [], domain = ''fire'', tags = [],
      reference = ''STD''\<rparr>"

definition childRec :: "string NormalizedRecord" where
  "childRec =
     \<lparr>standard = ''STD'', directiveCode = [], sectionCode = [], clauseId = [],
      title = ''Child'', text = [], facilityClass = [], domain = ''fire'', tags = [],
      reference = ''STD''\<rparr>"

definition longText :: string where
  "longText = replicate 10001 (CHR ''a'')"

definition longTextDoc :: json where
  "longTextDoc = JObj [(''title'', JStr ''Long''), (''text'', JStr longText)]"

definition longClauseDoc :: json where
  "longClauseDoc =
     JObj [(''document'', JObj [(''structured_sections'', JArr
       [JObj [(''section_code'', JStr ''9.1''),
              (''clauses'', JArr [JObj [(''text'', JStr longText)]])]])])]"

text \<open>
  A section text with two numbered clauses and the records the segmenter makes of it under
  an empty directive code. A fallback document and a clause document whose synthesised
  references have an empty part, and their records.
\<close>

definition segContent :: string where
  "segContent = ''4.3.1 Fences must be high and strong. 4.3.2 Gates must be locked at all times.''"

definition segRecs :: "string NormalizedRecord list" where
  "segRecs =
     [\<lparr>standard = ''STD'', directiveCode = [], sectionCode = ''4.3'',
       clauseId = ''4.3.1'', title = ''Fences must be high and strong'',
       text = ''Fences must be high and strong.'', facilityClass = [],
       domain = ''security'', tags = [], reference = ''STD  4.3 4.3.1''\<rparr>,
      \<lparr>standard = ''STD'', directiveCode = [], sectionCode = ''4.3'',
       clauseId = ''4.3.2'', title = ''Gates must be locked at all times'',
       text = ''Gates must be locked at all times.'', facilityClass = [],
       domain = ''security'', tags = [], reference = ''STD  4.3 4.3.2''\<rparr>]"

definition gapDoc :: json where
  "gapDoc = JObj [(''title'', JStr ''Gate''), (''clauseId'', JStr ''7'')]"

definition gapRec :: "string NormalizedRecord" where
  "gapRec =
     \<lparr>standard = ''STD'', directiveCode = [], sectionCode = [], clauseId = ''7'',
      title = ''Gate'', text = [], facilityClass = [], domain = ''security'', tags = [],
      reference = ''STD   7''\<rparr>"

definition gapClauseRec :: "string NormalizedRecord" where
  "gapClauseRec =
     \<lparr>standard = ''STD'', directiveCode = [], sectionCode = ''4.3'', clauseId = ''1'',
      title = ''Gate'', text = [], facilityClass = [], domain = ''security'', tags = [],
      reference = ''STD  4.3 1''\<rparr>"

definition gapClauseDoc :: json where
  "gapClauseDoc =
     JObj [(''directives'', JArr
       [JObj [(''structured_sections'', JArr
                 [JObj [(''section_code'', JStr ''4.3''),
                        (''clauses'', JArr [JObj [(''title'', JStr ''Gate'')]])]])]])]"

text \<open>
  A text with two numbered clauses followed by three articles, the records of its two
  numbered clauses, and a text with one numbered clause.
\<close>

definition cascadeText :: string where
  "cascadeText = ''1.1 Fences must be very tall 2.2 Gates must stay locked Article (1) x Article (2) y Article (3) z''"

definition cascadeRecs :: "string NormalizedRecord list" where
  "cascadeRecs =
     [\<lparr>standard = ''STD'', directiveCode = ''SEC-05'', sectionCode = ''4.3'',
       clauseId = ''1.1'', title = ''Fences must be very tall'',
       text = ''Fences must be very tall'', facilityClass = [],
       domain = ''security'', tags = [], reference = ''STD SEC-05 4.3 1.1''\<rparr>,
      \<lparr>standard = ''STD'', directiveCode = ''SEC-05'', sectionCode = ''4.3'',
       clauseId = ''2.2'', title = ''Gates must stay locked'',
       text = ''Gates must stay locked'', facilityClass = [],
       domain = ''security'', tags = [], reference = ''STD SEC-05 4.3 2.2''\<rparr>]"

definition singleText :: string where
  "singleText = ''1.1 Fences must be very tall''"

text \<open>
  Two texts of two paragraphs each, without digits and without the letter A: one of 212
  characters, one of 132 characters.
\<close>

definition paraText :: string where
  "paraText = replicate 150 (CHR ''x'') @ [CHR 0x0A, CHR 0x0A] @ replicate 60 (CHR ''y'')"

definition shortParaText :: string where
  "shortParaText = replicate 120 (CHR ''x'') @ [CHR 0x0A, CHR 0x0A] @ replicate 10 (CHR ''y'')"

text \<open>
  A document with one clause object whose title is the empty array and that has no text,
  and the record it loads as.
\<close>

definition emptyTitleDoc :: json where
  "emptyTitleDoc =
     JObj [(''directives'', JArr
       [JObj [(''directive_code'', JStr ''SEC-05''),
              (''structured_sections'', JArr
                 [JObj [(''section_code'', JStr ''4.3''),
                        (''clauses'', JArr [JObj [(''title'', JArr [])]])]])]])]"

definition emptyTitleRec :: "json NormalizedRecord" where
  "emptyTitleRec =
     \<lparr>standard = ''STD'', directiveCode = JStr ''SEC-05'', sectionCode = JStr ''4.3'',
      clauseId = JStr ''1'', title = JArr [], text = JStr [], facilityClass = JStr [],
      domain = JStr ''security'', tags = [], reference = JStr ''STD SEC-05 4.3 1''\<rparr>"

text \<open>
  A document whose directive code is a number, whose section code is an array and whose
  clause object has a number as title and \<open>true\<close> as text, and the record it loads as. A
  fallback document whose directive code is an object with a property \<open>toString\<close>.
\<close>

definition untypedDoc :: json where
  "untypedDoc =
     JObj [(''directives'', JArr
       [JObj [(''directive_code'', JNum 5),
              (''structured_sections'', JArr
                 [JObj [(''section_code'', JArr [JStr ''4'', JNum 3]),
                        (''clauses'', JArr
                           [JObj [(''title'', JNum 7), (''text'', JBool True)]])]])]])]"

definition untypedRec :: "json NormalizedRecord" where
  "untypedRec =
     \<lparr>standard = ''STD'', directiveCode = JNum 5, sectionCode = JArr [JStr ''4'', JNum 3],
      clauseId = JStr ''1'', title = JNum 7, text = JBool True, facilityClass = JStr [],
      domain = JStr ''security'', tags = [], reference = JStr ''STD 5 4,3 1''\<rparr>"

definition throwingDoc :: json where
  "throwingDoc =
     JObj [(''title'', JStr ''Gate''), (''directiveCode'', JObj [(''toString'', JNum 1)])]"

section \<open>Facts about the pattern matcher\<close>

declare rmatch.simps(6,7) [simp del]

lemma star_atom_Nil: "rmatch (Star (Atom k)) ([], cs) = [([], cs)]"
  by (subst rmatch.simps(6)) simp

lemma star_atom_Cons:
  "rmatch (Star (Atom k)) (c # t, cs) =
     (if cls k c then rmatch (Star (Atom k)) (t, cs) else []) @ [(c # t, cs)]"
  by (subst rmatch.simps(6)) simp

lemma rmatch_star_atom:
  "rmatch (Star (Atom k)) (s, cs) \<noteq> [] \<and>
   hd (rmatch (Star (Atom k)) (s, cs)) = (dropWhile (cls k) s, cs)"
  by (induction s) (simp_all add: star_atom_Nil star_atom_Cons)

lemma rmatch_rplus_atom:
  "rmatch (rplus (Atom k)) (s, cs) =
     (case s of [] \<Rightarrow> [] | c # t \<Rightarrow> if cls k c then rmatch (Star (Atom k)) (t, cs) else [])"
  by (cases s) (simp_all add: rplus_def)

lemma rplus_atom_hd:
  "cls k c \<Longrightarrow> \<exists>rest. rmatch (rplus (Atom k)) (c # t, cs) = (dropWhile (cls k) t, cs) # rest"
  using rmatch_star_atom [of k t cs]
  by (cases "rmatch (Star (Atom k)) (t, cs)") (auto simp: rmatch_rplus_atom)

lemma rplus_atom_none: "\<not> cls k c \<Longrightarrow> rmatch (rplus (Atom k)) (c # t, cs) = []"
  by (simp add: rmatch_rplus_atom)

lemma rplus_atom_Nil: "rmatch (rplus (Atom k)) ([], cs) = []"
  by (simp add: rmatch_rplus_atom)

text \<open>The recursion that \<open>replace(/\s+/g, ' ')\<close> obeys.\<close>

lemma collapseWs_Nil: "collapseWs [] = []"
  unfolding collapseWs_def wsRun_def
  by (subst replaceAllFrom.simps) (simp add: rplus_atom_Nil)

lemma collapseWs_Cons:
  "collapseWs (c # t) =
     (if isWs c then CHR '' '' # collapseWs (dropWhile isWs t) else c # collapseWs t)"
proof (cases "isWs c")
  case True
  then obtain rest where "rmatch wsRun (c # t, []) = (dropWhile isWs t, []) # rest"
    using rplus_atom_hd [of Space c t "[]"] by (auto simp: wsRun_def cong: dropWhile_cong)
  with True show ?thesis
    unfolding collapseWs_def
    by (subst replaceAllFrom.simps) (simp add: less_Suc_eq_le length_dropWhile_le)
next
  case False
  then show ?thesis
    unfolding collapseWs_def wsRun_def
    by (subst replaceAllFrom.simps) (simp add: rplus_atom_none)
qed

lemma collapseWs_collapseRuns: "collapseWs s = collapseRuns s"
  by (induction s rule: collapseRuns.induct) (simp_all add: collapseWs_Nil collapseWs_Cons)

lemma replace_underscore:
  "replaceAllFrom underscore '' '' s = map (\<lambda>c. if c = CHR ''_'' then CHR '' '' else c) s"
proof (induction s)
  case Nil
  show ?case by (subst replaceAllFrom.simps) (simp add: underscore_def)
next
  case (Cons c t)
  then show ?case by (subst replaceAllFrom.simps) (simp add: underscore_def)
qed

section \<open>Facts about strings\<close>

lemma trim_Nil: "trim [] = []"
  by (simp add: trim_def)

lemma endsWith_suffix: "endsWith s q = suffix q s"
proof
  assume "endsWith s q"
  then have "s = take (length s - length q) s @ q"
    by (metis append_take_drop_id endsWith_def)
  then show "suffix q s" by (metis suffixI)
next
  assume "suffix q s"
  then obtain zs where "s = zs @ q" by (auto simp: suffix_def)
  then show "endsWith s q" by (simp add: endsWith_def)
qed

lemma normalizeRefString_spec: "normalizeRefString s = normalizeSpec s"
  by (cases "s = []")
     (simp_all add: normalizeRefString_def normalizeSpec_def replace_underscore
        collapseWs_collapseRuns toLowerCase_def trim_Nil)

section \<open>getReference\<close>

text \<open>
  C7. The stored reference and the query go through the same \<open>normalizeRefString\<close>, which
  is the normalisation the specification words (lower-case, underscores to spaces, runs of
  white space to one space, trimmed). For a non-empty query the handler answers with the
  first record whose normalised reference equals the normalised query, else with the first
  record whose normalised reference ends with it, else with the not-found error. The
  queries \<open>hcis sec sec-05 4.3.2\<close> and \<open>HCIS_SEC SEC-05 4.3.2\<close> get the same answer from every
  corpus, and a corpus that stores the reference \<open>HCIS_SEC SEC-05 4.3.2\<close> answers the first
  query with a record whose normalised reference is that of the stored one.
\<close>

theorem getReference_lookup:
  "normalizeRefString q = normalizeSpec q
   \<and> (q \<noteq> [] \<longrightarrow>
        getReference corpus (JStr q) =
          (case find (\<lambda>r. normalizeSpec (reference r) = normalizeSpec q) corpus of
             Some r \<Rightarrow> Inr r
           | None \<Rightarrow>
               (case find (\<lambda>r. suffix (normalizeSpec q) (normalizeSpec (reference r))) corpus of
                  Some r \<Rightarrow> Inr r
                | None \<Rightarrow> Inl NotFoundError)))
   \<and> getReference corpus (JStr ''hcis sec sec-05 4.3.2'')
       = getReference corpus (JStr ''HCIS_SEC SEC-05 4.3.2'')
   \<and> (r0 \<in> set corpus \<and> reference r0 = ''HCIS_SEC SEC-05 4.3.2'' \<longrightarrow>
        (\<exists>r. getReference corpus (JStr ''hcis sec sec-05 4.3.2'') = Inr r
             \<and> r \<in> set corpus
             \<and> normalizeRefString (reference r) = normalizeRefString (reference r0)))"
proof -
  have a: "normalizeRefString q = normalizeSpec q"
    by (rule normalizeRefString_spec)
  have b: "q \<noteq> [] \<longrightarrow>
        getReference corpus (JStr q) =
          (case find (\<lambda>r. normalizeSpec (reference r) = normalizeSpec q) corpus of
             Some r \<Rightarrow> Inr r
           | None \<Rightarrow>
               (case find (\<lambda>r. suffix (normalizeSpec q) (normalizeSpec (reference r))) corpus of
                  Some r \<Rightarrow> Inr r
                | None \<Rightarrow> Inl NotFoundError))"
    by (simp add: getReference_def normalizeRefString_spec endsWith_suffix Let_def
          cong: option.case_cong)
  have n: "normalizeRefString ''hcis sec sec-05 4.3.2'' = normalizeRefString ''HCIS_SEC SEC-05 4.3.2''"
    by code_simp
  have c: "getReference corpus (JStr ''hcis sec sec-05 4.3.2'')
       = getReference corpus (JStr ''HCIS_SEC SEC-05 4.3.2'')"
    by (simp add: getReference_def n)
  have d: "\<exists>r. getReference corpus (JStr ''hcis sec sec-05 4.3.2'') = Inr r
             \<and> r \<in> set corpus
             \<and> normalizeRefString (reference r) = normalizeRefString (reference r0)"
    if r0: "r0 \<in> set corpus" "reference r0 = ''HCIS_SEC SEC-05 4.3.2''"
  proof -
    let ?P = "\<lambda>r. normalizeRefString (reference r) = normalizeRefString ''hcis sec sec-05 4.3.2''"
    have "?P r0" using r0 n by simp
    with r0 obtain r where f: "find ?P corpus = Some r"
      by (cases "find ?P corpus") (auto simp: find_None_iff)
    then have "?P r" and "r \<in> set corpus"
      by (auto simp: find_Some_iff)
    moreover have "getReference corpus (JStr ''hcis sec sec-05 4.3.2'') = Inr r"
      using f by (simp add: getReference_def)
    ultimately show ?thesis using r0 n by auto
  qed
  from a b c d show ?thesis by blast
qed

text \<open>The two queries on a corpus of two records: both resolve the second record.\<close>

theorem getReference_lookup_witness:
  "getReference refCorpus (JStr ''hcis sec sec-05 4.3.2'') = Inr (refCorpus ! 1)
   \<and> getReference refCorpus (JStr ''HCIS_SEC SEC-05 4.3.2'') = Inr (refCorpus ! 1)"
proof -
  have n0: "normalizeRefString (reference (refCorpus ! 0)) = ''hcis sec sec-01 4.4.1''"
    by code_simp
  have n1: "normalizeRefString (reference (refCorpus ! 1)) = ''hcis sec sec-05 4.3.2''"
    by code_simp
  have m: "refCorpus ! 1 \<in> set refCorpus" "reference (refCorpus ! 1) = ''HCIS_SEC SEC-05 4.3.2''"
    by (simp_all add: refCorpus_def)
  have s: "set refCorpus = {refCorpus ! 0, refCorpus ! 1}"
    by (simp add: refCorpus_def)
  from getReference_lookup [of "''hcis sec sec-05 4.3.2''" refCorpus "refCorpus ! 1"] m
  obtain r where r: "getReference refCorpus (JStr ''hcis sec sec-05 4.3.2'') = Inr r"
      "r \<in> set refCorpus"
      "normalizeRefString (reference r) = normalizeRefString (reference (refCorpus ! 1))"
      and e: "getReference refCorpus (JStr ''hcis sec sec-05 4.3.2'')
               = getReference refCorpus (JStr ''HCIS_SEC SEC-05 4.3.2'')"
    by blast
  from r(2,3) s n0 n1 have "r = refCorpus ! 1" by auto
  with r(1) e show ?thesis by simp
qed

lemma find_True: "xs \<noteq> [] \<Longrightarrow> find (\<lambda>x. True) xs = Some (hd xs)"
  by (cases xs) simp_all

text \<open>
  C10, as amended. For a non-empty corpus and a non-empty query whose normalisation is the
  empty string, \<open>getReference\<close> never answers not-found: it returns the first record whose
  normalised reference is itself empty when there is one (the exact match comes first), and
  otherwise the first record of the corpus (every normalised reference ends with the empty
  string).
\<close>

theorem getReference_blank_query:
  "corpus \<noteq> [] \<Longrightarrow> q \<noteq> [] \<Longrightarrow> normalizeRefString q = [] \<Longrightarrow>
   getReference corpus (JStr q) =
     Inr (case find (\<lambda>r. normalizeRefString (reference r) = []) corpus of
            Some r \<Rightarrow> r
          | None \<Rightarrow> hd corpus)"
  by (simp add: getReference_def endsWith_def find_True split: option.splits)

text \<open>The query \<open>_ _\<close> on the sample corpus, where no stored reference normalises to the
  empty string: the first record is returned.\<close>

theorem getReference_blank_query_witness:
  "getReference refCorpus (JStr ''_ _'') = Inr (hd refCorpus)"
proof -
  have c: "refCorpus \<noteq> []" by (simp add: refCorpus_def)
  have q: "''_ _'' \<noteq> []" by simp
  have n: "normalizeRefString ''_ _'' = []" by code_simp
  have n0: "normalizeRefString (reference (refCorpus ! 0)) = ''hcis sec sec-01 4.4.1''"
    by code_simp
  have n1: "normalizeRefString (reference (refCorpus ! 1)) = ''hcis sec sec-05 4.3.2''"
    by code_simp
  have f: "find (\<lambda>r. normalizeRefString (reference r) = []) refCorpus = None"
    using n0 n1 by (simp add: refCorpus_def)
  show ?thesis using getReference_blank_query [OF c q n] f by simp
qed

text \<open>
  C10 as stated fails: the document \<open>blankRefDoc\<close> loads as two records, the second with the
  reference of one space; the query \<open>_\<close> returns that second record, not the first.
\<close>

theorem getReference_blank_query_counterexample:
  "normalizeRecord blankRefDoc ''STD'' ''security'' ''f.json''
     = Inr (map jsRecord blankRefCorpus)
   \<and> blankRefCorpus \<noteq> []
   \<and> normalizeRefString ''_'' = []
   \<and> getReference blankRefCorpus (JStr ''_'') = Inr (blankRefCorpus ! 1)
   \<and> blankRefCorpus ! 1 \<noteq> hd blankRefCorpus"
proof -
  have a: "normalizeRecord blankRefDoc ''STD'' ''security'' ''f.json''
             = Inr (map jsRecord blankRefCorpus)"
    by code_simp
  have n: "normalizeRefString ''_'' = []" by code_simp
  have n0: "normalizeRefString ''A 1'' = ''a 1''" by code_simp
  have n1: "normalizeRefString '' '' = []" by code_simp
  have g: "getReference blankRefCorpus (JStr ''_'') = Inr (blankRefCorpus ! 1)"
    by (simp add: getReference_def blankRefCorpus_def n n0 n1)
  show ?thesis using a n g by (simp add: blankRefCorpus_def)
qed

section \<open>generateChecklist\<close>

lemma softFacilityClass_spec:
  "v \<noteq> [] \<Longrightarrow>
   softFacilityClass (Some v) rs =
     softFilter facilityClass (\<lambda>a. includes_str (toLowerCase a) (toLowerCase v)) rs"
  by (auto simp: softFacilityClass_def softFilter_def Let_def filter_empty_conv)

lemma softDomains_spec:
  "dl \<noteq> [] \<Longrightarrow>
   softDomains (Some dl) rs =
     softFilter domain (\<lambda>a. list_ex (\<lambda>d. includes_str (toLowerCase a) (toLowerCase d)) dl) rs"
  by (auto simp: softDomains_def softFilter_def Let_def filter_empty_conv list_ex_iff)

text \<open>
  C3. With a non-empty list of standards, \<open>generateChecklist\<close> first keeps the records
  whose standard matches one of them, then applies a supplied \<open>facilityClass\<close>, and likewise
  supplied \<open>domains\<close>, as the soft filter of the specification: the test runs over the
  selected records with a non-empty value of the attribute, and its hits replace the
  selection only if there is one. In particular, when no selected record matches the
  \<open>facilityClass\<close> (and no domains are given), the checklist holds every record the
  standards filter selected.
\<close>

theorem generateChecklist_soft_filter:
  "sl \<noteq> [] \<Longrightarrow> v \<noteq> [] \<Longrightarrow> dl \<noteq> [] \<Longrightarrow>
   generateChecklist corpus (Some sl) (Some v) None =
     Inr (map toChecklistItem
           (softFilter facilityClass (\<lambda>a. includes_str (toLowerCase a) (toLowerCase v))
              (standardsFilter sl corpus)))
   \<and> generateChecklist corpus (Some sl) None (Some dl) =
     Inr (map toChecklistItem
           (softFilter domain (\<lambda>a. list_ex (\<lambda>d. includes_str (toLowerCase a) (toLowerCase d)) dl)
              (standardsFilter sl corpus)))
   \<and> generateChecklist corpus (Some sl) (Some v) (Some dl) =
     Inr (map toChecklistItem
           (softFilter domain (\<lambda>a. list_ex (\<lambda>d. includes_str (toLowerCase a) (toLowerCase d)) dl)
              (softFilter facilityClass (\<lambda>a. includes_str (toLowerCase a) (toLowerCase v))
                 (standardsFilter sl corpus))))
   \<and> (list_all (\<lambda>r. \<not> includes_str (toLowerCase (facilityClass r)) (toLowerCase v))
         (standardsFilter sl corpus) \<longrightarrow>
        generateChecklist corpus (Some sl) (Some v) None =
          Inr (map toChecklistItem (standardsFilter sl corpus)))"
proof -
  assume sl: "sl \<noteq> []" and v: "v \<noteq> []" and dl: "dl \<noteq> []"
  have n: "softDomains None rs = rs" "softFacilityClass None rs = rs" for rs
    by (simp_all add: softDomains_def softFacilityClass_def)
  have miss: "softFilter facilityClass (\<lambda>a. includes_str (toLowerCase a) (toLowerCase v)) rs = rs"
    if "list_all (\<lambda>r. \<not> includes_str (toLowerCase (facilityClass r)) (toLowerCase v)) rs" for rs
    using that by (auto simp: softFilter_def Let_def list_all_iff filter_empty_conv)
  show ?thesis
    using sl
    by (simp add: generateChecklist_def Let_def n softFacilityClass_spec [OF v]
          softDomains_spec [OF dl] miss)
qed

text \<open>
  On the sample corpus the standard \<open>hcis\<close> selects two records. The facility class
  \<open>Class 7\<close> matches none of them and both stay; \<open>class 1\<close> matches the first, which
  alone remains.
\<close>

theorem generateChecklist_soft_filter_witness:
  "generateChecklist classCorpus (Some [''hcis'']) (Some ''Class 7'') None =
     Inr (map toChecklistItem [classCorpus ! 0, classCorpus ! 1])
   \<and> generateChecklist classCorpus (Some [''hcis'']) (Some ''class 1'') None =
     Inr (map toChecklistItem [classCorpus ! 0])"
proof -
  have s: "standardsFilter [''hcis''] classCorpus = [classCorpus ! 0, classCorpus ! 1]"
    by code_simp
  have m: "list_all (\<lambda>r. \<not> includes_str (toLowerCase (facilityClass r)) (toLowerCase ''Class 7''))
             (standardsFilter [''hcis''] classCorpus)"
    by code_simp
  have h: "softFilter facilityClass (\<lambda>a. includes_str (toLowerCase a) (toLowerCase ''class 1''))
             [classCorpus ! 0, classCorpus ! 1] = [classCorpus ! 0]"
    by code_simp
  have x: "[''hcis''] \<noteq> []" "''Class 7'' \<noteq> []" "''class 1'' \<noteq> []" "[''fire''] \<noteq> []"
    by simp_all
  have a: "generateChecklist classCorpus (Some [''hcis'']) (Some ''Class 7'') None =
             Inr (map toChecklistItem (standardsFilter [''hcis''] classCorpus))"
    using generateChecklist_soft_filter [OF x(1) x(2) x(4), of classCorpus] m by blast
  have b: "generateChecklist classCorpus (Some [''hcis'']) (Some ''class 1'') None =
     Inr (map toChecklistItem
           (softFilter facilityClass (\<lambda>a. includes_str (toLowerCase a) (toLowerCase ''class 1''))
              (standardsFilter [''hcis''] classCorpus)))"
    using generateChecklist_soft_filter [OF x(1) x(3) x(4), of classCorpus] by blast
  show ?thesis
    using a b by (simp only: s h)
qed

section \<open>searchRequirements\<close>






lemma trimmed_trim: "trimmed (trim s)"
proof -
  let ?t = "dropWhile isWs s"
  let ?u = "rev (dropWhile isWs (rev ?t))"
  have t: "?t = ?u @ rev (takeWhile isWs (rev ?t))"
    by (metis rev_append rev_rev_ident takeWhile_dropWhile_id)
  have "\<not> isWs (hd ?u) \<and> \<not> isWs (last ?u)" if u: "?u \<noteq> []"
  proof -
    from u have "hd ?u = hd ?t" using t by (metis hd_append2)
    moreover have "?t \<noteq> []"
    proof
      assume a: "?t = []"
      have "?u = []" unfolding a by simp
      with u show False by contradiction
    qed
    ultimately have h: "\<not> isWs (hd ?u)" using hd_dropWhile [of isWs s] by simp
    from u have d: "dropWhile isWs (rev ?t) \<noteq> []" by simp
    have "last ?u = hd (dropWhile isWs (rev ?t))"
      using d by (simp add: last_rev)
    with hd_dropWhile [OF d] h show ?thesis by simp
  qed
  then show ?thesis unfolding trimmed_def trim_def by blast
qed

section \<open>normalizeRecord and the corpus\<close>

lemma sequenceE_Inr: "sequenceE ms = Inr xss \<Longrightarrow> ms = map Inr xss"
proof (induction ms arbitrary: xss)
  case Nil
  then show ?case by simp
next
  case (Cons m ms)
  then show ?case
    by (cases m; cases "sequenceE ms") (auto simp: bindE_def)
qed

lemma concatE_Inr:
  "concatE ms = Inr rs \<Longrightarrow> \<exists>xss. ms = map Inr xss \<and> rs = concat xss"
  by (cases "sequenceE ms") (auto simp: concatE_def bindE_def dest: sequenceE_Inr)

lemma concatE_all:
  assumes "concatE ms = Inr rs"
    and "\<And>m xs. m \<in> set ms \<Longrightarrow> m = Inr xs \<Longrightarrow> \<forall>x \<in> set xs. P x"
  shows "\<forall>r \<in> set rs. P r"
proof -
  from assms(1) obtain xss where x: "ms = map Inr xss" "rs = concat xss"
    using concatE_Inr by blast
  show ?thesis
  proof
    fix r assume "r \<in> set rs"
    with x obtain xs where "xs \<in> set xss" "r \<in> set xs" by auto
    moreover from this x have "Inr xs \<in> set ms" by auto
    ultimately show "P r" using assms(2) by blast
  qed
qed

lemma fromHcis_keep: "fromHcis raw st dm = Inr rs \<Longrightarrow> \<forall>r \<in> set rs. keep r"
  by (auto simp: fromHcis_def bindE_def split: json.splits sum.splits)

lemma fromDocumentStructure_keep:
  "fromDocumentStructure raw st dm = Inr rs \<Longrightarrow> \<forall>r \<in> set rs. keep r"
  by (auto simp: fromDocumentStructure_def bindE_def split: json.splits sum.splits)

lemma bindE_Inr: "bindE m f = Inr y \<Longrightarrow> \<exists>x. m = Inr x \<and> f x = Inr y"
  by (cases m) (simp_all add: bindE_def)

lemma genericRecord_keep: "genericRecord doc st dm = Inr rs \<Longrightarrow> \<forall>r \<in> set rs. keep r"
  unfolding genericRecord_def
  by (auto dest!: bindE_Inr simp: Let_def keep_def split: if_splits)

lemma genericRecord_length: "genericRecord doc st dm = Inr rs \<Longrightarrow> length rs \<le> 1"
  unfolding genericRecord_def
  by (auto dest!: bindE_Inr simp: Let_def split: if_splits)

lemma normalizeRecord_keep:
  "normalizeRecord doc st dm fn = Inr rs \<Longrightarrow> \<forall>r \<in> set rs. keep r"
proof (induction doc st dm fn arbitrary: rs rule: normalizeRecord.induct)
  case (1 st dm fn)
  then show ?case by simp
next
  case (2 items st dm fn)
  show ?case
  proof (rule concatE_all [where ms = "map (\<lambda>item. normalizeRecord item st dm fn) items"])
    show "concatE (map (\<lambda>item. normalizeRecord item st dm fn) items) = Inr rs"
      using "2.prems" by simp
  next
    fix m xs
    assume "m \<in> set (map (\<lambda>item. normalizeRecord item st dm fn) items)" and "m = Inr xs"
    then obtain item where "item \<in> set items" "normalizeRecord item st dm fn = Inr xs" by auto
    then show "\<forall>x \<in> set xs. keep x" using "2.IH" by blast
  qed
qed (auto dest: fromHcis_keep fromDocumentStructure_keep genericRecord_keep split: if_splits)

lemma loadData_keep: "\<forall>r \<in> set (loadData files). keep r"
proof (induction files rule: loadData.induct)
  case 1
  show ?case by simp
next
  case (2 fn st dm doc files)
  show ?case
  proof (cases "normalizeRecord doc st dm fn")
    case (Inl e)
    with 2 show ?thesis by simp
  next
    case (Inr rs)
    with 2 normalizeRecord_keep [OF Inr] show ?thesis by auto
  qed
qed

text \<open>
  C4, as amended. Every record of the corpus that \<open>loadData\<close> builds, and every record that
  \<open>normalizeRecord\<close> returns for a document of any shape, has a truthy title or a truthy
  text: the two structural walks filter their results by \<open>r.title || r.text\<close>, the fallback
  keeps its record only under this test, an array is normalised element by element, and
  the segmenter's records pass through the filter of the walk that called it. A record
  with neither is left out without an error. Where title and text are strings, as the
  interface declares them, one of the two is not empty.
\<close>

theorem corpus_title_or_text:
  "(\<forall>r \<in> set (loadData files). truthy (title r) \<or> truthy (text r))
   \<and> (normalizeRecord doc st dm fn = Inr rs \<longrightarrow>
        (\<forall>r \<in> set rs. truthy (title r) \<or> truthy (text r)))
   \<and> (\<forall>r \<in> set (loadData files). \<forall>a b.
        title r = JStr a \<and> text r = JStr b \<longrightarrow> a \<noteq> [] \<or> b \<noteq> [])"
proof -
  have a: "\<forall>r \<in> set (loadData files). truthy (title r) \<or> truthy (text r)"
    using loadData_keep [of files] by (simp add: keep_def)
  have b: "\<forall>r \<in> set rs. truthy (title r) \<or> truthy (text r)"
    if "normalizeRecord doc st dm fn = Inr rs"
    using normalizeRecord_keep [OF that] by (simp add: keep_def)
  have c: "\<forall>r \<in> set (loadData files). \<forall>a b.
        title r = JStr a \<and> text r = JStr b \<longrightarrow> a \<noteq> [] \<or> b \<noteq> []"
    using a by fastforce
  from a b c show ?thesis by blast
qed

text \<open>
  The document \<open>hcisDoc\<close> has two clause objects; the second has neither title nor text
  and is dropped, the first is kept for its text. A file that holds \<open>null\<close> throws and is
  skipped, and the file after it is loaded.
\<close>

theorem corpus_title_or_text_witness:
  "normalizeRecord hcisDoc ''STD'' ''security'' ''hcis.json'' = Inr [jsRecord hcisRec]
   \<and> normalizeRecord JNull ''BAD'' ''general'' ''bad.json'' = Inl TypeError
   \<and> loadData [(''bad.json'', ''BAD'', ''general'', JNull),
               (''hcis.json'', ''STD'', ''security'', hcisDoc)] = [jsRecord hcisRec]
   \<and> title (jsRecord hcisRec) = JStr [] \<and> text (jsRecord hcisRec) = JStr ''Fences are required''
   \<and> truthy (text (jsRecord hcisRec))"
proof -
  let ?files = "[(''bad.json'', ''BAD'', ''general'', JNull),
                 (''hcis.json'', ''STD'', ''security'', hcisDoc)]"
  have n: "normalizeRecord hcisDoc ''STD'' ''security'' ''hcis.json'' = Inr [jsRecord hcisRec]"
    by code_simp
  have l: "loadData ?files = [jsRecord hcisRec]"
    by (simp add: n)
  have t: "title (jsRecord hcisRec) = JStr []"
    "text (jsRecord hcisRec) = JStr ''Fences are required''"
    by (simp_all add: jsRecord_def hcisRec_def)
  have "truthy (title (jsRecord hcisRec)) \<or> truthy (text (jsRecord hcisRec))"
    using corpus_title_or_text
            [of ?files hcisDoc "''STD''" "''security''" "''hcis.json''" "[jsRecord hcisRec]"] n l
    by simp
  then have "truthy (text (jsRecord hcisRec))"
    by (simp add: t)
  then show ?thesis using n l t by simp
qed

text \<open>
  C4 as stated fails: the clause object of \<open>emptyTitleDoc\<close> has the empty array as its
  title and no text. The empty array is truthy, so the record is kept, and the corpus
  holds a record whose title is an empty array and whose text is the empty string. The
  same holds for the fallback document \<open>{"title": []}\<close>.
\<close>

theorem corpus_title_or_text_counterexample:
  "loadData [(''hcis.json'', ''STD'', ''security'', emptyTitleDoc)] = [emptyTitleRec]
   \<and> title emptyTitleRec = JArr [] \<and> text emptyTitleRec = JStr []
   \<and> normalizeRecord (JObj [(''title'', JArr [])]) ''STD'' ''security'' ''f.json''
       = Inr [\<lparr>standard = ''STD'', directiveCode = JStr [], sectionCode = JStr [],
                clauseId = JStr [], title = JArr [], text = JStr [], facilityClass = JStr [],
                domain = JStr ''security'', tags = [], reference = JStr ''STD''\<rparr>]"
proof -
  have n: "normalizeRecord emptyTitleDoc ''STD'' ''security'' ''hcis.json'' = Inr [emptyTitleRec]"
    by code_simp
  have l: "loadData [(''hcis.json'', ''STD'', ''security'', emptyTitleDoc)] = [emptyTitleRec]"
    by (simp add: n)
  have g: "normalizeRecord (JObj [(''title'', JArr [])]) ''STD'' ''security'' ''f.json''
       = Inr [\<lparr>standard = ''STD'', directiveCode = JStr [], sectionCode = JStr [],
                clauseId = JStr [], title = JArr [], text = JStr [], facilityClass = JStr [],
                domain = JStr ''security'', tags = [], reference = JStr ''STD''\<rparr>]"
    by code_simp
  show ?thesis unfolding l g by (simp add: emptyTitleRec_def)
qed

text \<open>
  Values that are not strings are copied into the record as they are, and the reference
  template converts them. A document whose template cannot be converted throws: the
  loader skips it and loads the next file.
\<close>

lemma untyped_document_sample:
  "normalizeRecord untypedDoc ''STD'' ''security'' ''f.json'' = Inr [untypedRec]
   \<and> normalizeRecord throwingDoc ''STD'' ''security'' ''g.json'' = Inl TypeError
   \<and> loadData [(''g.json'', ''STD'', ''security'', throwingDoc),
               (''f.json'', ''STD'', ''security'', untypedDoc)] = [untypedRec]"
proof -
  have a: "normalizeRecord untypedDoc ''STD'' ''security'' ''f.json'' = Inr [untypedRec]"
    by code_simp
  have b: "normalizeRecord throwingDoc ''STD'' ''security'' ''g.json'' = Inl TypeError"
    by code_simp
  show ?thesis by (simp add: a b)
qed

lemma generic_dispatch:
  "\<not> (case get (JObj kvs) ''directives'' of JArr ds \<Rightarrow> True | _ \<Rightarrow> False) \<Longrightarrow>
   \<not> (truthy (get (JObj kvs) ''document'')
       \<and> truthy (get (get (JObj kvs) ''document'') ''structured_sections'')) \<Longrightarrow>
   normalizeRecord (JObj kvs) st dm fn = genericRecord (JObj kvs) st dm"
  by (auto simp del: get.simps)

lemma get_skip:
  "k \<in> set [''requirements'', ''sections'', ''clauses'', ''items''] \<Longrightarrow>
   name \<notin> set [''requirements'', ''sections'', ''clauses'', ''items''] \<Longrightarrow>
   get (JObj ((k, v) # kvs)) name = get (JObj kvs) name"
  by auto

lemma field_skip:
  assumes "k \<in> set [''requirements'', ''sections'', ''clauses'', ''items'']"
    and "list_all (\<lambda>n. n \<notin> set [''requirements'', ''sections'', ''clauses'', ''items'']) names"
  shows "field (JObj ((k, v) # kvs)) names d = field (JObj kvs) names d"
proof -
  have "map (get (JObj ((k, v) # kvs))) names = map (get (JObj kvs)) names"
    using assms(2) get_skip [OF assms(1)] by (auto simp: list_all_iff simp del: get.simps)
  then show ?thesis by (simp only: field_def)
qed

lemma tagsOf_skip:
  assumes "k \<in> set [''requirements'', ''sections'', ''clauses'', ''items'']"
  shows "tagsOf (JObj ((k, v) # kvs)) = tagsOf (JObj kvs)"
proof -
  have "get (JObj ((k, v) # kvs)) ''tags'' = get (JObj kvs) ''tags''"
    "get (JObj ((k, v) # kvs)) ''tag'' = get (JObj kvs) ''tag''"
    by (rule get_skip [OF assms], simp)+
  then show ?thesis by (simp only: tagsOf_def)
qed

lemma genericRecord_ignores:
  assumes k: "k \<in> set [''requirements'', ''sections'', ''clauses'', ''items'']"
  shows "genericRecord (JObj ((k, v) # kvs)) st dm = genericRecord (JObj kvs) st dm"
proof -
  have f: "field (JObj ((k, v) # kvs)) names d = field (JObj kvs) names d"
    if "list_all (\<lambda>n. n \<notin> set [''requirements'', ''sections'', ''clauses'', ''items'']) names"
    for names d
    using k that by (rule field_skip)
  have g1: "get (JObj ((k, v) # kvs)) ''reference'' = get (JObj kvs) ''reference''"
    by (rule get_skip [OF k]) simp
  have g2: "get (JObj ((k, v) # kvs)) ''ref'' = get (JObj kvs) ''ref''"
    by (rule get_skip [OF k]) simp
  have f1: "field (JObj ((k, v) # kvs)) [''directiveCode'', ''directive_code'', ''directive'',
              ''chapter'', ''section'', ''code''] d
            = field (JObj kvs) [''directiveCode'', ''directive_code'', ''directive'',
              ''chapter'', ''section'', ''code''] d" for d
    by (rule f) simp
  have f2: "field (JObj ((k, v) # kvs)) [''sectionCode'', ''section_code'', ''subsection'',
              ''article'', ''clause''] d
            = field (JObj kvs) [''sectionCode'', ''section_code'', ''subsection'',
              ''article'', ''clause''] d" for d
    by (rule f) simp
  have f3: "field (JObj ((k, v) # kvs)) [''clauseId'', ''clause_id'', ''id'', ''clauseNumber'',
              ''number'', ''articleNumber''] d
            = field (JObj kvs) [''clauseId'', ''clause_id'', ''id'', ''clauseNumber'',
              ''number'', ''articleNumber''] d" for d
    by (rule f) simp
  have f4: "field (JObj ((k, v) # kvs)) [''title'', ''heading'', ''name'', ''description''] d
            = field (JObj kvs) [''title'', ''heading'', ''name'', ''description''] d" for d
    by (rule f) simp
  have f5: "field (JObj ((k, v) # kvs)) [''text'', ''content'', ''requirement'', ''clause'',
              ''description''] d
            = field (JObj kvs) [''text'', ''content'', ''requirement'', ''clause'',
              ''description''] d" for d
    by (rule f) simp
  have f6: "field (JObj ((k, v) # kvs)) [''facilityClass'', ''facility_class'', ''class'',
              ''occupancy'', ''category''] d
            = field (JObj kvs) [''facilityClass'', ''facility_class'', ''class'',
              ''occupancy'', ''category''] d" for d
    by (rule f) simp
  have f7: "field (JObj ((k, v) # kvs)) [''domain''] d = field (JObj kvs) [''domain''] d" for d
    by (rule f) simp
  have f8: "field (JObj ((k, v) # kvs)) [''directiveCode'', ''directive_code''] d
            = field (JObj kvs) [''directiveCode'', ''directive_code''] d" for d
    by (rule f) simp
  have f9: "field (JObj ((k, v) # kvs)) [''sectionCode'', ''section_code''] d
            = field (JObj kvs) [''sectionCode'', ''section_code''] d" for d
    by (rule f) simp
  have f10: "field (JObj ((k, v) # kvs)) [''clauseId'', ''clause_id''] d
            = field (JObj kvs) [''clauseId'', ''clause_id''] d" for d
    by (rule f) simp
  show ?thesis
    unfolding genericRecord_def
    by (simp only: f1 f2 f3 f4 f5 f6 f7 f8 f9 f10 g1 g2 tagsOf_skip [OF k])
qed

text \<open>
  C2, as amended. A fallback document (an object whose \<open>directives\<close> is not an array and
  whose \<open>document.structured_sections\<close> is not truthy) is normalised by the field fallback
  alone: the result is at most one record, and what the document holds under
  \<open>requirements\<close>, \<open>sections\<close>, \<open>clauses\<close> or \<open>items\<close> is never visited, so adding such a
  property changes nothing.
\<close>

theorem generic_no_recursion:
  "\<not> (case get (JObj kvs) ''directives'' of JArr ds \<Rightarrow> True | _ \<Rightarrow> False) \<Longrightarrow>
   \<not> (truthy (get (JObj kvs) ''document'')
       \<and> truthy (get (get (JObj kvs) ''document'') ''structured_sections'')) \<Longrightarrow>
   k \<in> set [''requirements'', ''sections'', ''clauses'', ''items''] \<Longrightarrow>
   normalizeRecord (JObj ((k, v) # kvs)) st dm fn = normalizeRecord (JObj kvs) st dm fn
   \<and> normalizeRecord (JObj kvs) st dm fn = genericRecord (JObj kvs) st dm
   \<and> (\<forall>rs. normalizeRecord (JObj ((k, v) # kvs)) st dm fn = Inr rs \<longrightarrow> length rs \<le> 1)"
proof -
  assume d: "\<not> (case get (JObj kvs) ''directives'' of JArr ds \<Rightarrow> True | _ \<Rightarrow> False)"
    and s: "\<not> (truthy (get (JObj kvs) ''document'')
       \<and> truthy (get (get (JObj kvs) ''document'') ''structured_sections''))"
    and k: "k \<in> set [''requirements'', ''sections'', ''clauses'', ''items'']"
  have gd: "get (JObj ((k, v) # kvs)) ''directives'' = get (JObj kvs) ''directives''"
    "get (JObj ((k, v) # kvs)) ''document'' = get (JObj kvs) ''document''"
    using k by (simp_all add: get_skip del: get.simps)
  have a: "normalizeRecord (JObj kvs) st dm fn = genericRecord (JObj kvs) st dm"
    using d s by (rule generic_dispatch)
  have b: "normalizeRecord (JObj ((k, v) # kvs)) st dm fn = genericRecord (JObj ((k, v) # kvs)) st dm"
    using d s by (intro generic_dispatch) (simp_all only: gd not_False_eq_True)
  show ?thesis
    using a b genericRecord_ignores [OF k, of v kvs st dm] genericRecord_length [of "JObj kvs" st dm]
    by simp
qed

text \<open>The document \<open>nestedDoc\<close> normalises as its own title alone does.\<close>

theorem generic_no_recursion_witness:
  "normalizeRecord nestedDoc ''STD'' ''fire'' ''f.json''
     = normalizeRecord (JObj [(''title'', JStr ''Parent'')]) ''STD'' ''fire'' ''f.json''
   \<and> normalizeRecord (JObj [(''title'', JStr ''Parent'')]) ''STD'' ''fire'' ''f.json''
     = genericRecord (JObj [(''title'', JStr ''Parent'')]) ''STD'' ''fire''"
proof -
  have d: "\<not> (case get (JObj [(''title'', JStr ''Parent'')]) ''directives'' of
               JArr ds \<Rightarrow> True | _ \<Rightarrow> False)"
    by simp
  have s: "\<not> (truthy (get (JObj [(''title'', JStr ''Parent'')]) ''document'')
       \<and> truthy (get (get (JObj [(''title'', JStr ''Parent'')]) ''document'')
                   ''structured_sections''))"
    by simp
  have k: "''items'' \<in> set [''requirements'', ''sections'', ''clauses'', ''items'']"
    by simp
  show ?thesis
    using generic_no_recursion [OF d s k, of "JArr [JObj [(''title'', JStr ''Child'')]]"
            "''STD''" "''fire''" "''f.json''"]
    by (simp only: nestedDoc_def)
qed

text \<open>
  C2 as stated fails: \<open>nestedDoc\<close> has a titled element under \<open>items\<close>, which on its own
  gives the record titled \<open>Child\<close>, but the result for \<open>nestedDoc\<close> is the one record
  titled \<open>Parent\<close>, not the union of the two.
\<close>

theorem generic_no_recursion_counterexample:
  "normalizeRecord nestedDoc ''STD'' ''fire'' ''f.json'' = Inr [jsRecord parentRec]
   \<and> normalizeRecord (JObj [(''title'', JStr ''Child'')]) ''STD'' ''fire'' ''f.json''
       = Inr [jsRecord childRec]
   \<and> normalizeRecord nestedDoc ''STD'' ''fire'' ''f.json''
       \<noteq> Inr ([jsRecord parentRec] @ [jsRecord childRec])"
proof -
  have a: "normalizeRecord nestedDoc ''STD'' ''fire'' ''f.json'' = Inr [jsRecord parentRec]"
    by code_simp
  have b: "normalizeRecord (JObj [(''title'', JStr ''Child'')]) ''STD'' ''fire'' ''f.json''
             = Inr [jsRecord childRec]"
    by code_simp
  show ?thesis unfolding a b by simp
qed

section \<open>parseContentIntoClauses: what every record satisfies\<close>

lemma segOk_segRecord:
  "truthy ttl \<Longrightarrow> segRecord st dc sc dm cid ttl (take 10000 txt) = Inr r \<Longrightarrow> segOk r"
  by (auto simp: segRecord_def segOk_def trimmed_trim dest!: bindE_Inr)

lemma titleOr_nonempty: "fb \<noteq> [] \<Longrightarrow> titleOr t fb \<noteq> []"
  by (simp add: titleOr_def Let_def)

lemma pushed_ok:
  assumes "(if cond then bindE (segRecord st dc sc dm cid ttl (take 10000 txt)) (\<lambda>r. Inr [r])
            else Inr []) = Inr pushed"
    and "truthy ttl"
  shows "list_all segOk pushed"
proof (cases cond)
  case True
  with assms(1) obtain r where "segRecord st dc sc dm cid ttl (take 10000 txt) = Inr r"
    and "pushed = [r]"
    by (auto dest!: bindE_Inr)
  with assms(2) show ?thesis by (simp add: segOk_segRecord)
next
  case False
  with assms(1) show ?thesis by simp
qed

lemma matchRecords_ok: "matchRecords st dc sc dm i ms = Inr rs \<Longrightarrow> list_all segOk rs"
proof (induction ms arbitrary: i rs)
  case Nil
  then show ?case by simp
next
  case (Cons m ms)
  define cid where "cid = (if groupOf m 1 \<noteq> [] then groupOf m 1 else showNat (i + 1))"
  define body where "body = trim (collapseWs (trim (groupOf m 2)))"
  define ttl where "ttl = (let title' = titleOr body (''Clause '' @ cid)
                           in JStr (if length title' > 0 then title' else ''Clause '' @ cid))"
  have tt: "truthy ttl" by (simp add: ttl_def Let_def)
  have eq: "matchRecords st dc sc dm i (m # ms) =
     bindE (if length body > 20
            then bindE (segRecord st dc sc dm cid ttl (take 10000 body)) (\<lambda>r. Inr [r])
            else Inr []) (\<lambda>pushed.
     bindE (matchRecords st dc sc dm (i + 1) ms) (\<lambda>rest. Inr (pushed @ rest)))"
    by (simp add: cid_def body_def ttl_def Let_def)
  obtain pushed where p: "(if length body > 20
            then bindE (segRecord st dc sc dm cid ttl (take 10000 body)) (\<lambda>r. Inr [r])
            else Inr []) = Inr pushed"
    and q: "bindE (matchRecords st dc sc dm (i + 1) ms) (\<lambda>rest. Inr (pushed @ rest)) = Inr rs"
    using bindE_Inr [OF Cons.prems [unfolded eq]] by blast
  obtain rest where r: "matchRecords st dc sc dm (i + 1) ms = Inr rest" and rs: "rs = pushed @ rest"
    using bindE_Inr [OF q] by auto
  show ?case
    unfolding rs using pushed_ok [OF p tt] Cons.IH [OF r] by simp
qed

lemma paragraphLoop_ok: "paragraphLoop n st dc sc dm i ps = Inr rs \<Longrightarrow> list_all segOk rs"
proof (induction ps arbitrary: i rs)
  case Nil
  then show ?case by simp
next
  case (Cons para ps)
  define body where "body = collapseWs (trim para)"
  define ttl where "ttl = JStr (titleOr body (''Requirement '' @ showNat (i + 1)))"
  have tt: "truthy ttl" by (simp add: ttl_def titleOr_nonempty)
  have eq: "paragraphLoop n st dc sc dm i (para # ps) =
     bindE (if length body > n
            then bindE (segRecord st dc sc dm (showNat (i + 1)) ttl (take 10000 body))
                   (\<lambda>r. Inr [r])
            else Inr []) (\<lambda>pushed.
     bindE (paragraphLoop n st dc sc dm (i + 1) ps) (\<lambda>rest. Inr (pushed @ rest)))"
    by (simp add: body_def ttl_def Let_def)
  obtain pushed where p: "(if length body > n
            then bindE (segRecord st dc sc dm (showNat (i + 1)) ttl (take 10000 body))
                   (\<lambda>r. Inr [r])
            else Inr []) = Inr pushed"
    and q: "bindE (paragraphLoop n st dc sc dm (i + 1) ps) (\<lambda>rest. Inr (pushed @ rest)) = Inr rs"
    using bindE_Inr [OF Cons.prems [unfolded eq]] by blast
  obtain rest where r: "paragraphLoop n st dc sc dm (i + 1) ps = Inr rest"
    and rs: "rs = pushed @ rest"
    using bindE_Inr [OF q] by auto
  show ?case
    unfolding rs using pushed_ok [OF p tt] Cons.IH [OF r] by simp
qed

lemma firstTruthy_truthy: "d \<noteq> [] \<Longrightarrow> truthy (firstTruthy vs d)"
  by (induction vs) simp_all

lemma wholeRecord_ok: "wholeRecord c st dc sc dm = Inr r \<Longrightarrow> segOk r"
proof -
  assume w: "wholeRecord c st dc sc dm = Inr r"
  let ?t = "take 10000 (collapseWs (trim c))"
  have t: "truthy (firstTruthy [JStr (take 200 (firstSentence ?t)), sc] ''Requirement'')"
    by (rule firstTruthy_truthy) simp
  have "segRecord st dc sc dm ''1''
          (firstTruthy [JStr (take 200 (firstSentence ?t)), sc] ''Requirement'')
          (take 10000 (collapseWs (trim c))) = Inr r"
    using w by (simp add: wholeRecord_def Let_def)
  with t show ?thesis by (rule segOk_segRecord)
qed

lemma parseContentIntoClauses_ok:
  assumes a: "parseContentIntoClauses c st dc sc dm = Inr rs"
  shows "list_all segOk rs"
proof (cases "c = [] \<or> length (trim c) = 0")
  case True
  with a show ?thesis by (simp add: parseContentIntoClauses_def)
next
  case False
  have eq: "parseContentIntoClauses c st dc sc dm =
     bindE (if length (selectMatches c) > 0
            then matchRecords st dc sc dm 0 (selectMatches c) else Inr []) (\<lambda>results1.
     bindE (if length results1 = 0 \<and> length c > 200
            then paragraphRecords c st dc sc dm else Inr results1) (\<lambda>results2.
     if length results2 = 0 \<and> length c > 100
     then bindE (wholeRecord c st dc sc dm) (\<lambda>r. Inr [r]) else Inr results2))"
    using False by (simp add: parseContentIntoClauses_def Let_def del: length_greater_0_conv)
  obtain r1 where r1: "(if length (selectMatches c) > 0
            then matchRecords st dc sc dm 0 (selectMatches c) else Inr []) = Inr r1"
    and q1: "bindE (if length r1 = 0 \<and> length c > 200
                    then paragraphRecords c st dc sc dm else Inr r1) (\<lambda>results2.
             if length results2 = 0 \<and> length c > 100
             then bindE (wholeRecord c st dc sc dm) (\<lambda>r. Inr [r]) else Inr results2) = Inr rs"
    using bindE_Inr [OF a [unfolded eq]] by blast
  obtain r2 where r2: "(if length r1 = 0 \<and> length c > 200
                        then paragraphRecords c st dc sc dm else Inr r1) = Inr r2"
    and q2: "(if length r2 = 0 \<and> length c > 100
              then bindE (wholeRecord c st dc sc dm) (\<lambda>r. Inr [r]) else Inr r2) = Inr rs"
    using bindE_Inr [OF q1] by blast
  have o1: "list_all segOk r1"
    using r1 matchRecords_ok [of st dc sc dm 0 "selectMatches c" r1]
    by (cases "length (selectMatches c) > 0") simp_all
  have o2: "list_all segOk r2"
    using r2 o1 paragraphLoop_ok [of _ st dc sc dm 0 "paragraphsOf c" r2]
    by (cases "length r1 = 0 \<and> length c > 200") (auto simp: paragraphRecords_def Let_def split: if_splits)
  show ?thesis
  proof (cases "length r2 = 0 \<and> length c > 100")
    case True
    with q2 obtain w where "wholeRecord c st dc sc dm = Inr w" "rs = [w]"
      by (auto dest!: bindE_Inr)
    then show ?thesis using wholeRecord_ok by simp
  next
    case False
    with q2 o2 show ?thesis by auto
  qed
qed

text \<open>With codes that convert to strings the segmenter does not throw.\<close>

lemma segRecord_total:
  "toStr dc = Inr d \<Longrightarrow> toStr sc = Inr s \<Longrightarrow> \<exists>r. segRecord st dc sc dm cid ttl txt = Inr r"
  by (simp add: segRecord_def template_def bindE_def)

lemma pushed_total:
  assumes "toStr dc = Inr d" "toStr sc = Inr s"
  shows "\<exists>ps. (if cond then bindE (segRecord st dc sc dm cid ttl body) (\<lambda>r. Inr [r])
              else Inr []) = Inr ps"
  using segRecord_total [OF assms, of st dm cid ttl body] by (auto simp: bindE_def)

lemma matchRecords_total:
  assumes "toStr dc = Inr d" "toStr sc = Inr s"
  shows "\<exists>rs. matchRecords st dc sc dm i ms = Inr rs"
proof (induction ms arbitrary: i)
  case Nil
  show ?case by simp
next
  case (Cons m ms)
  obtain rest where r: "matchRecords st dc sc dm (i + 1) ms = Inr rest"
    using Cons by blast
  define cid where "cid = (if groupOf m 1 \<noteq> [] then groupOf m 1 else showNat (i + 1))"
  define body where "body = trim (collapseWs (trim (groupOf m 2)))"
  define ttl where "ttl = (let title' = titleOr body (''Clause '' @ cid)
                           in JStr (if length title' > 0 then title' else ''Clause '' @ cid))"
  have eq: "matchRecords st dc sc dm i (m # ms) =
     bindE (if length body > 20
            then bindE (segRecord st dc sc dm cid ttl (take 10000 body)) (\<lambda>r. Inr [r])
            else Inr []) (\<lambda>pushed.
     bindE (matchRecords st dc sc dm (i + 1) ms) (\<lambda>rest. Inr (pushed @ rest)))"
    by (simp add: cid_def body_def ttl_def Let_def)
  obtain ps where p: "(if length body > 20
            then bindE (segRecord st dc sc dm cid ttl (take 10000 body)) (\<lambda>r. Inr [r])
            else Inr []) = Inr ps"
    using pushed_total [OF assms] by blast
  show ?case unfolding eq p r by (simp add: bindE_def)
qed

lemma paragraphLoop_total:
  assumes "toStr dc = Inr d" "toStr sc = Inr s"
  shows "\<exists>rs. paragraphLoop n st dc sc dm i ps = Inr rs"
proof (induction ps arbitrary: i)
  case Nil
  show ?case by simp
next
  case (Cons para ps)
  obtain rest where r: "paragraphLoop n st dc sc dm (i + 1) ps = Inr rest"
    using Cons by blast
  define body where "body = collapseWs (trim para)"
  define ttl where "ttl = JStr (titleOr body (''Requirement '' @ showNat (i + 1)))"
  have eq: "paragraphLoop n st dc sc dm i (para # ps) =
     bindE (if length body > n
            then bindE (segRecord st dc sc dm (showNat (i + 1)) ttl (take 10000 body))
                   (\<lambda>r. Inr [r])
            else Inr []) (\<lambda>pushed.
     bindE (paragraphLoop n st dc sc dm (i + 1) ps) (\<lambda>rest. Inr (pushed @ rest)))"
    by (simp add: body_def ttl_def Let_def)
  obtain pushed where p: "(if length body > n
            then bindE (segRecord st dc sc dm (showNat (i + 1)) ttl (take 10000 body))
                   (\<lambda>r. Inr [r])
            else Inr []) = Inr pushed"
    using pushed_total [OF assms] by blast
  show ?case unfolding eq p r by (simp add: bindE_def)
qed

lemma parseContentIntoClauses_total:
  assumes "toStr dc = Inr d" "toStr sc = Inr s"
  shows "\<exists>rs. parseContentIntoClauses c st dc sc dm = Inr rs"
proof -
  obtain r1 where r1: "matchRecords st dc sc dm 0 (selectMatches c) = Inr r1"
    using matchRecords_total [OF assms] by blast
  obtain r2 where r2: "paragraphRecords c st dc sc dm = Inr r2"
    using paragraphLoop_total [OF assms, of 100 st dm 0 "paragraphsOf c"]
      paragraphLoop_total [OF assms, of 50 st dm 0 "paragraphsOf c"]
    by (cases "3 < length (paragraphsOf c)") (auto simp: paragraphRecords_def Let_def)
  obtain w where w: "wholeRecord c st dc sc dm = Inr w"
    unfolding wholeRecord_def Let_def using segRecord_total [OF assms] by blast
  show ?thesis
    unfolding parseContentIntoClauses_def Let_def
    by (simp add: r1 r2 w bindE_def del: length_greater_0_conv)
qed

lemma segOk_text: "segOk r \<Longrightarrow> \<exists>s. text r = JStr s \<and> length s \<le> 10000"
  by (cases "text r") (simp_all add: segOk_def)

lemma segOk_reference: "segOk r \<Longrightarrow> \<exists>s. reference r = JStr s \<and> trimmed s"
  by (cases "reference r") (simp_all add: segOk_def)

lemma segContent_parsed:
  "parseContentIntoClauses segContent ''STD'' (JStr []) (JStr ''4.3'') ''security''
     = Inr (map jsRecord segRecs)"
  by code_simp

text \<open>
  C1, as amended. Every record that the segmenter derives from a section text has a text
  of at most 10,000 characters, and with a directive code and a section code that are
  strings the segmenter always returns. (The records of explicit clause objects and of the
  fallback take their text from the document as it is.)
\<close>

theorem segmenter_text_capped:
  "(parseContentIntoClauses content st dc sc dm = Inr rs \<longrightarrow>
      (\<forall>r \<in> set rs. \<exists>s. text r = JStr s \<and> length s \<le> 10000))
   \<and> (\<exists>rs. parseContentIntoClauses content st (JStr a) (JStr b) dm = Inr rs)"
proof -
  have "\<forall>r \<in> set rs. \<exists>s. text r = JStr s \<and> length s \<le> 10000"
    if "parseContentIntoClauses content st dc sc dm = Inr rs"
    using parseContentIntoClauses_ok [OF that]
    by (auto simp: list_all_iff dest: segOk_text)
  moreover have "\<exists>rs. parseContentIntoClauses content st (JStr a) (JStr b) dm = Inr rs"
    by (rule parseContentIntoClauses_total) simp_all
  ultimately show ?thesis by blast
qed

text \<open>The two records of the sample section text.\<close>

theorem segmenter_text_capped_witness:
  "parseContentIntoClauses segContent ''STD'' (JStr []) (JStr ''4.3'') ''security''
     = Inr (map jsRecord segRecs)
   \<and> text (jsRecord (segRecs ! 0)) = JStr (text (segRecs ! 0))
   \<and> text (jsRecord (segRecs ! 1)) = JStr (text (segRecs ! 1))
   \<and> length (text (segRecs ! 0)) \<le> 10000 \<and> length (text (segRecs ! 1)) \<le> 10000"
proof -
  have "\<forall>r \<in> set (map jsRecord segRecs). \<exists>s. text r = JStr s \<and> length s \<le> 10000"
    using segmenter_text_capped [of segContent "''STD''" "JStr []" "JStr ''4.3''" "''security''"
            "map jsRecord segRecs" "[]" "''4.3''"]
      segContent_parsed
    by blast
  moreover have "set segRecs = {segRecs ! 0, segRecs ! 1}"
    by (simp add: segRecs_def)
  ultimately show ?thesis using segContent_parsed by (simp add: jsRecord_def)
qed

lemma longText_nonempty: "longText \<noteq> []"
  by (simp add: longText_def)

lemma showNat_1: "showNat (Suc 0) = ''1''"
  by code_simp

lemma showInt_1: "showInt 1 = ''1''"
  by code_simp

text \<open>
  C1 as stated fails: a text of 10,001 characters in a fallback document, and in a clause
  object of a section-rooted document, is stored in full.
\<close>

theorem text_cap_counterexample:
  "normalizeRecord longTextDoc ''STD'' ''fire'' ''f.json''
     = Inr [\<lparr>standard = ''STD'', directiveCode = JStr [], sectionCode = JStr [],
              clauseId = JStr [], title = JStr ''Long'', text = JStr longText,
              facilityClass = JStr [], domain = JStr ''fire'', tags = [],
              reference = JStr ''STD''\<rparr>]
   \<and> normalizeRecord longClauseDoc ''STD'' ''fire'' ''f.json''
     = Inr [\<lparr>standard = ''STD'', directiveCode = JStr [], sectionCode = JStr ''9.1'',
              clauseId = JStr ''1'', title = JStr [], text = JStr longText,
              facilityClass = JStr [], domain = JStr ''fire'', tags = [],
              reference = JStr ''STD 9.1 1''\<rparr>]
   \<and> length longText = 10001"
proof -
  have t1: "trim ''STD   '' = ''STD''" by code_simp
  have t2: "trim ''STD 9.1 1'' = ''STD 9.1 1''" by code_simp
  have a: "normalizeRecord longTextDoc ''STD'' ''fire'' ''f.json''
     = Inr [\<lparr>standard = ''STD'', directiveCode = JStr [], sectionCode = JStr [],
              clauseId = JStr [], title = JStr ''Long'', text = JStr longText,
              facilityClass = JStr [], domain = JStr ''fire'', tags = [],
              reference = JStr ''STD''\<rparr>]"
    by (simp add: longTextDoc_def genericRecord_def field_def bindE_def tagsOf_def orElse_def
          template_def longText_nonempty joinSp_def t1)
  have b: "normalizeRecord longClauseDoc ''STD'' ''fire'' ''f.json''
     = Inr [\<lparr>standard = ''STD'', directiveCode = JStr [], sectionCode = JStr ''9.1'',
              clauseId = JStr ''1'', title = JStr [], text = JStr longText,
              facilityClass = JStr [], domain = JStr ''fire'', tags = [],
              reference = JStr ''STD 9.1 1''\<rparr>]"
    by (simp add: longClauseDoc_def fromDocumentStructure_def sectionRecords_def
          clauseRecord_def concatE_def field_def bindE_def tagsOf_def enumerate_eq_zip
          orElse_def template_def longText_nonempty joinSp_def t2 showNat_1 showInt_1 keep_def)
  have c: "length longText = 10001" by (simp add: longText_def)
  show ?thesis unfolding a b c by simp
qed

lemma firstTruthy_single: "firstTruthy [JStr s] [] = JStr s"
  by simp

text \<open>
  C8, as amended. A synthesised reference is the template trimmed: it is a string without
  white space at either end. This holds for every record of the segmenter, for the record
  of a clause object without a truthy \<open>reference\<close>, and for the record of a fallback
  document without a truthy \<open>reference\<close> or \<open>ref\<close>; with a directive code and a section
  code that are strings the segmenter always returns. (Spaces inside the template are kept
  as they are.)
\<close>

theorem synthesized_reference_trimmed:
  "(parseContentIntoClauses content st dc sc dm = Inr rs \<longrightarrow>
      (\<forall>r \<in> set rs. \<exists>s. reference r = JStr s \<and> trimmed s))
   \<and> (\<exists>rs. parseContentIntoClauses content st (JStr a) (JStr b) dm = Inr rs)
   \<and> (\<not> truthy (get clause ''reference'')
        \<and> clauseRecord st dc sc dm lead section i clause = Inr r1 \<longrightarrow>
      (\<exists>s. reference r1 = JStr s \<and> trimmed s))
   \<and> (\<not> truthy (get doc ''reference'') \<and> \<not> truthy (get doc ''ref'')
        \<and> genericRecord doc st dm = Inr [r2] \<longrightarrow>
      (\<exists>s. reference r2 = JStr s \<and> trimmed s))"
proof -
  have a: "\<forall>r \<in> set rs. \<exists>s. reference r = JStr s \<and> trimmed s"
    if "parseContentIntoClauses content st dc sc dm = Inr rs"
    using parseContentIntoClauses_ok [OF that]
    by (auto simp: list_all_iff dest: segOk_reference)
  have t: "\<exists>rs. parseContentIntoClauses content st (JStr a) (JStr b) dm = Inr rs"
    by (rule parseContentIntoClauses_total) simp_all
  have b: "\<exists>s. reference r1 = JStr s \<and> trimmed s"
    if "\<not> truthy (get clause ''reference'')"
      and "clauseRecord st dc sc dm lead section i clause = Inr r1"
    using that unfolding clauseRecord_def orElse_def
    by (auto dest!: bindE_Inr simp: trimmed_trim split: if_splits)
  have c: "\<exists>s. reference r2 = JStr s \<and> trimmed s"
    if "\<not> truthy (get doc ''reference'')" "\<not> truthy (get doc ''ref'')"
      and "genericRecord doc st dm = Inr [r2]"
    using that unfolding genericRecord_def orElse_def firstTruthy_single
    by (auto dest!: bindE_Inr simp: trimmed_trim Let_def split: if_splits)
  from a t b c show ?thesis by blast
qed

text \<open>
  The three paths with an empty directive code: each synthesised reference is trimmed, and
  each keeps the spaces around its empty part.
\<close>

theorem synthesized_reference_trimmed_witness:
  "parseContentIntoClauses segContent ''STD'' (JStr []) (JStr ''4.3'') ''security''
     = Inr (map jsRecord segRecs)
   \<and> reference (jsRecord (segRecs ! 0)) = JStr ''STD  4.3 4.3.1''
   \<and> trimmed ''STD  4.3 4.3.1''
   \<and> clauseRecord ''STD'' (JStr []) (JStr ''4.3'') ''security''
         [JStr ''STD'', JStr [], JStr ''4.3''] JNull 0
         (JObj [(''title'', JStr ''Gate'')]) = Inr (jsRecord gapClauseRec)
   \<and> reference (jsRecord gapClauseRec) = JStr ''STD  4.3 1''
   \<and> trimmed ''STD  4.3 1''
   \<and> genericRecord gapDoc ''STD'' ''security'' = Inr [jsRecord gapRec]
   \<and> reference (jsRecord gapRec) = JStr ''STD   7''
   \<and> trimmed ''STD   7''"
proof -
  have c: "clauseRecord ''STD'' (JStr []) (JStr ''4.3'') ''security''
             [JStr ''STD'', JStr [], JStr ''4.3''] JNull 0
             (JObj [(''title'', JStr ''Gate'')]) = Inr (jsRecord gapClauseRec)"
    by code_simp
  have g: "genericRecord gapDoc ''STD'' ''security'' = Inr [jsRecord gapRec]"
    by code_simp
  have n: "\<not> truthy (get (JObj [(''title'', JStr ''Gate'')]) ''reference'')"
    "\<not> truthy (get gapDoc ''reference'')" "\<not> truthy (get gapDoc ''ref'')"
    by (simp_all add: gapDoc_def)
  have m: "jsRecord (segRecs ! 0) \<in> set (map jsRecord segRecs)" by (simp add: segRecs_def)
  have r: "reference (jsRecord (segRecs ! 0)) = JStr ''STD  4.3 4.3.1''"
    "reference (jsRecord gapClauseRec) = JStr ''STD  4.3 1''"
    "reference (jsRecord gapRec) = JStr ''STD   7''"
    by (simp_all add: jsRecord_def segRecs_def gapClauseRec_def gapRec_def)
  have "(\<forall>r \<in> set (map jsRecord segRecs). \<exists>s. reference r = JStr s \<and> trimmed s)
        \<and> (\<exists>s. reference (jsRecord gapClauseRec) = JStr s \<and> trimmed s)
        \<and> (\<exists>s. reference (jsRecord gapRec) = JStr s \<and> trimmed s)"
    using synthesized_reference_trimmed [of segContent "''STD''" "JStr []" "JStr ''4.3''"
            "''security''" "map jsRecord segRecs" "[]" "[]"
            "JObj [(''title'', JStr ''Gate'')]" "[JStr ''STD'', JStr [], JStr ''4.3'']" JNull 0
            "jsRecord gapClauseRec" gapDoc "jsRecord gapRec"]
      n c g segContent_parsed
    by blast
  with m have "trimmed ''STD  4.3 4.3.1'' \<and> trimmed ''STD  4.3 1'' \<and> trimmed ''STD   7''"
    unfolding r by (metis json.inject(3) r(1))
  with c g r segContent_parsed show ?thesis by simp
qed

text \<open>
  C8 as stated fails: the fallback document \<open>gapDoc\<close> has a clause id but no directive or
  section code, and its reference has three spaces in a row; the clause object of
  \<open>gapClauseDoc\<close> has no directive code, and its reference has two.
\<close>

theorem reference_spaces_counterexample:
  "normalizeRecord gapDoc ''STD'' ''security'' ''f.json'' = Inr [jsRecord gapRec]
   \<and> reference (jsRecord gapRec) = JStr ''STD   7''
   \<and> \<not> noSpaceRun ''STD   7''
   \<and> normalizeRecord gapClauseDoc ''STD'' ''security'' ''f.json'' = Inr [jsRecord gapClauseRec]
   \<and> reference (jsRecord gapClauseRec) = JStr ''STD  4.3 1''
   \<and> \<not> noSpaceRun ''STD  4.3 1''"
proof -
  have a: "normalizeRecord gapDoc ''STD'' ''security'' ''f.json'' = Inr [jsRecord gapRec]"
    by code_simp
  have b: "normalizeRecord gapClauseDoc ''STD'' ''security'' ''f.json''
             = Inr [jsRecord gapClauseRec]"
    by code_simp
  show ?thesis unfolding a b by (simp add: jsRecord_def gapRec_def gapClauseRec_def)
qed

section \<open>The cascade of parseContentIntoClauses\<close>

lemma parse_cascade_or_fallback:
  "trim c \<noteq> [] \<Longrightarrow>
   parseContentIntoClauses c st dc sc dm =
     bindE (matchRecords st dc sc dm 0 (selectMatches c))
       (\<lambda>recs. if recs \<noteq> [] then Inr recs else fallbackRecords c st dc sc dm)"
proof -
  assume "trim c \<noteq> []"
  then have t: "c \<noteq> []"
    by (auto simp: trim_def)
  have m: "(if 0 < length ms then matchRecords st dc sc dm 0 ms else Inr [])
             = matchRecords st dc sc dm 0 ms"
    for ms by (cases ms) simp_all
  show ?thesis
  proof (cases "matchRecords st dc sc dm 0 (selectMatches c)")
    case (Inl e)
    then show ?thesis
      unfolding parseContentIntoClauses_def Let_def m
      using t \<open>trim c \<noteq> []\<close> by (simp add: bindE_def)
  next
    case (Inr recs)
    show ?thesis
    proof (cases "recs = []")
      case True
      show ?thesis
        unfolding parseContentIntoClauses_def fallbackRecords_def Let_def m Inr True
        using t \<open>trim c \<noteq> []\<close>
        by (cases "paragraphRecords c st dc sc dm") (auto simp: bindE_def)
    next
      case False
      then show ?thesis
        unfolding parseContentIntoClauses_def Let_def m Inr
        using t \<open>trim c \<noteq> []\<close> by (simp add: bindE_def)
    qed
  qed
qed

text \<open>
  C6. The three patterns are tried in the order numbered clause, article, bare section,
  and the matches of the first pattern with at least two matches are selected, whatever
  the later patterns match; when no pattern has two matches nothing is selected. For a
  text that is not blank, the segmenter returns the records of the selected matches when
  there are any, and otherwise the result of the paragraph and whole-text fallback.
\<close>

theorem cascade_order:
  "(1 < length (matchAllFrom numberedPattern c) \<longrightarrow>
      selectMatches c = matchAllFrom numberedPattern c)
   \<and> (length (matchAllFrom numberedPattern c) \<le> 1 \<and> 1 < length (matchAllFrom articlePattern c) \<longrightarrow>
      selectMatches c = matchAllFrom articlePattern c)
   \<and> (length (matchAllFrom numberedPattern c) \<le> 1 \<and> length (matchAllFrom articlePattern c) \<le> 1
        \<and> 1 < length (matchAllFrom sectionPattern c) \<longrightarrow>
      selectMatches c = matchAllFrom sectionPattern c)
   \<and> (length (matchAllFrom numberedPattern c) \<le> 1 \<and> length (matchAllFrom articlePattern c) \<le> 1
        \<and> length (matchAllFrom sectionPattern c) \<le> 1 \<longrightarrow>
      selectMatches c = [])
   \<and> (trim c \<noteq> [] \<longrightarrow>
      parseContentIntoClauses c st dc sc dm =
        bindE (matchRecords st dc sc dm 0 (selectMatches c))
          (\<lambda>recs. if recs \<noteq> [] then Inr recs else fallbackRecords c st dc sc dm))"
  using parse_cascade_or_fallback [of c st dc sc dm]
  by (simp add: selectMatches_def Let_def)

lemma cascadeText_numbered:
  "matchAllFrom numberedPattern cascadeText =
     [[(2, ''Fences must be very tall ''), (1, ''1.1'')],
      [(2, ''Gates must stay locked ''), (1, ''2.2'')]]"
  by code_simp

lemma cascadeText_article: "length (matchAllFrom articlePattern cascadeText) = 3"
  by code_simp

lemma singleText_counts:
  "length (matchAllFrom numberedPattern singleText) = 1
   \<and> length (matchAllFrom articlePattern singleText) = 0
   \<and> length (matchAllFrom sectionPattern singleText) = 1"
  by code_simp

text \<open>
  \<open>cascadeText\<close> has exactly two numbered-clause matches and three article matches: the
  numbered clauses are selected and give the two records. \<open>singleText\<close> has exactly one
  numbered-clause match, no article match and one section match: nothing is selected and
  the result is that of the fallback (empty here, the text being short).
\<close>

theorem cascade_order_witness:
  "length (matchAllFrom numberedPattern cascadeText) = 2
   \<and> length (matchAllFrom articlePattern cascadeText) = 3
   \<and> selectMatches cascadeText = matchAllFrom numberedPattern cascadeText
   \<and> parseContentIntoClauses cascadeText ''STD'' (JStr ''SEC-05'') (JStr ''4.3'') ''security''
       = Inr (map jsRecord cascadeRecs)
   \<and> length (matchAllFrom numberedPattern singleText) = 1
   \<and> selectMatches singleText = []
   \<and> parseContentIntoClauses singleText ''STD'' (JStr ''SEC-05'') (JStr ''4.3'') ''security''
       = fallbackRecords singleText ''STD'' (JStr ''SEC-05'') (JStr ''4.3'') ''security''
   \<and> fallbackRecords singleText ''STD'' (JStr ''SEC-05'') (JStr ''4.3'') ''security'' = Inr []"
proof -
  note c1 = cascade_order [of cascadeText "''STD''" "JStr ''SEC-05''" "JStr ''4.3''" "''security''"]
  note c2 = cascade_order [of singleText "''STD''" "JStr ''SEC-05''" "JStr ''4.3''" "''security''"]
  have n: "length (matchAllFrom numberedPattern cascadeText) = 2"
    by (simp add: cascadeText_numbered)
  have s1: "selectMatches cascadeText = matchAllFrom numberedPattern cascadeText"
    using c1 n by simp
  have r: "matchRecords ''STD'' (JStr ''SEC-05'') (JStr ''4.3'') ''security'' 0
             [[(2, ''Fences must be very tall ''), (1, ''1.1'')],
              [(2, ''Gates must stay locked ''), (1, ''2.2'')]] = Inr (map jsRecord cascadeRecs)"
    by code_simp
  have t1: "trim cascadeText \<noteq> []" by code_simp
  have t2: "trim singleText \<noteq> []" by code_simp
  have ne: "map jsRecord cascadeRecs \<noteq> []" by (simp add: cascadeRecs_def)
  have e: "matchRecords ''STD'' (JStr ''SEC-05'') (JStr ''4.3'') ''security'' 0
             (selectMatches cascadeText) = Inr (map jsRecord cascadeRecs)"
    by (simp only: s1 cascadeText_numbered r)
  have p1: "parseContentIntoClauses cascadeText ''STD'' (JStr ''SEC-05'') (JStr ''4.3'') ''security''
              = Inr (map jsRecord cascadeRecs)"
    using c1 t1 ne unfolding e by (simp add: bindE_def)
  have s2: "selectMatches singleText = []"
    using c2 singleText_counts by simp
  have p2: "parseContentIntoClauses singleText ''STD'' (JStr ''SEC-05'') (JStr ''4.3'') ''security''
       = fallbackRecords singleText ''STD'' (JStr ''SEC-05'') (JStr ''4.3'') ''security''"
    using c2 t2 unfolding s2 by (simp add: bindE_def)
  have f: "fallbackRecords singleText ''STD'' (JStr ''SEC-05'') (JStr ''4.3'') ''security'' = Inr []"
    by (simp add: fallbackRecords_def singleText_def bindE_def)
  show ?thesis
    using n cascadeText_article s1 p1 singleText_counts s2 p2 f by simp
qed

section \<open>The paragraph fallback of parseContentIntoClauses\<close>

lemma paragraphLoop_closed:
  "paragraphLoop n st dc sc dm i ps =
     sequenceE (map (\<lambda>(j, p). paragraphRecord st dc sc dm j p)
       (filter (\<lambda>(j, p). n < length (collapseWs (trim p))) (enumerate i ps)))"
proof (induction ps arbitrary: i)
  case Nil
  show ?case by simp
next
  case (Cons p ps)
  show ?case
    by (cases "paragraphRecord st dc sc dm i p";
        cases "sequenceE (map (\<lambda>(j, p). paragraphRecord st dc sc dm j p)
                 (filter (\<lambda>(j, p). n < length (collapseWs (trim p))) (enumerate (Suc i) ps)))")
       (simp_all add: Let_def Cons [of "Suc i"] paragraphRecord_def bindE_def)
qed

lemma sequenceE_Nil: "sequenceE ms = Inr [] \<Longrightarrow> ms = []"
  by (drule sequenceE_Inr) simp

text \<open>
  C5, as amended. When the cascade yields no record (in particular when no pattern has at
  least two matches) and the text is longer than 200 characters, the segmenter splits the
  text on blank lines and keeps the paragraphs whose trimmed length exceeds 100; it emits
  one record per kept paragraph whose cleaned length exceeds 100 when more than 3
  paragraphs were kept, and exceeds 50 otherwise; when that gives no record it emits the
  whole-text record. For a text of at most 200 characters the paragraphs are not looked
  at: the result is the whole-text record when the text is longer than 100 characters
  and nothing otherwise.
\<close>

theorem paragraph_fallback:
  "trim content \<noteq> [] \<Longrightarrow> matchRecords st dc sc dm 0 (selectMatches content) = Inr [] \<Longrightarrow>
   (200 < length content \<longrightarrow>
      parseContentIntoClauses content st dc sc dm =
        (let paragraphs = filter (\<lambda>p. 100 < length (trim p)) (split_re blankLine content);
             minLen = (if 3 < length paragraphs then 100 else 50);
             surviving = filter (\<lambda>(i, p). minLen < length (collapseWs (trim p)))
                           (enumerate 0 paragraphs)
         in if surviving \<noteq> []
            then sequenceE (map (\<lambda>(i, p). paragraphRecord st dc sc dm i p) surviving)
            else bindE (wholeRecord content st dc sc dm) (\<lambda>r. Inr [r])))
   \<and> (length content \<le> 200 \<longrightarrow>
      parseContentIntoClauses content st dc sc dm =
        (if 100 < length content then bindE (wholeRecord content st dc sc dm) (\<lambda>r. Inr [r])
         else Inr []))"
proof -
  assume t: "trim content \<noteq> []"
    and m: "matchRecords st dc sc dm 0 (selectMatches content) = Inr []"
  have p: "parseContentIntoClauses content st dc sc dm = fallbackRecords content st dc sc dm"
    using parse_cascade_or_fallback [of content st dc sc dm] t m by (simp add: bindE_def)
  have s: "bindE (sequenceE ms) (\<lambda>paras. if paras \<noteq> [] then Inr paras else w)
             = (if ms \<noteq> [] then sequenceE ms else w)"
    for ms :: "(error + json NormalizedRecord) list" and w
    by (cases "sequenceE ms") (auto simp: bindE_def dest: sequenceE_Nil)
  show ?thesis
    unfolding p fallbackRecords_def paragraphRecords_def paragraphsOf_def paragraphLoop_closed
    by (simp add: Let_def s) (simp add: bindE_def)
qed

lemma matchAllFrom_none:
  assumes "rmatch r ([], []) = []" and "\<forall>c \<in> set s. \<forall>t. rmatch r (c # t, []) = []"
  shows "matchAllFrom r s = []"
  using assms(2)
proof (induction s)
  case Nil
  show ?case by (subst matchAllFrom.simps) (simp add: assms(1))
next
  case (Cons c t)
  then show ?case by (subst matchAllFrom.simps) simp
qed

lemma upperA: "toUpperAscii CHR ''A'' = CHR ''A''"
  by code_simp

lemma numbered_no_start: "\<not> isDigit c \<Longrightarrow> rmatch numberedPattern (c # t, []) = []"
  by (simp add: numberedPattern_def seqs_def digits1_def rplus_def)

lemma numbered_Nil: "rmatch numberedPattern ([], []) = []"
  by (simp add: numberedPattern_def seqs_def digits1_def rplus_def)

lemma section_no_start: "\<not> isDigit c \<Longrightarrow> rmatch sectionPattern (c # t, []) = []"
  by (simp add: sectionPattern_def seqs_def digits1_def rplus_def)

lemma section_Nil: "rmatch sectionPattern ([], []) = []"
  by (simp add: sectionPattern_def seqs_def digits1_def rplus_def)

lemma article_no_start:
  "toUpperAscii c \<noteq> CHR ''A'' \<Longrightarrow> rmatch articlePattern (c # t, []) = []"
  by (simp add: articlePattern_def seqs_def litI_def upperA)

lemma article_Nil: "rmatch articlePattern ([], []) = []"
  by (simp add: articlePattern_def seqs_def litI_def)

lemma selectMatches_none:
  assumes "\<forall>c \<in> set s. \<not> isDigit c \<and> toUpperAscii c \<noteq> CHR ''A''"
  shows "selectMatches s = []"
proof -
  have "matchAllFrom numberedPattern s = []"
    using assms by (intro matchAllFrom_none numbered_Nil) (simp add: numbered_no_start)
  moreover have "matchAllFrom articlePattern s = []"
    using assms by (intro matchAllFrom_none article_Nil) (simp add: article_no_start)
  moreover have "matchAllFrom sectionPattern s = []"
    using assms by (intro matchAllFrom_none section_Nil) (simp add: section_no_start)
  ultimately show ?thesis by (simp add: selectMatches_def)
qed

lemma splitFrom_skip:
  assumes "\<forall>c \<in> set p. \<forall>t. rmatch r (c # t, []) = []"
  shows "splitFrom r cur (p @ s) = splitFrom r (rev p @ cur) s"
  using assms
proof (induction p arbitrary: cur)
  case Nil
  show ?case by simp
next
  case (Cons c p)
  have "splitFrom r cur ((c # p) @ s) = splitFrom r (c # cur) (p @ s)"
    using Cons.prems by (subst splitFrom.simps) simp
  also have "\<dots> = splitFrom r (rev p @ c # cur) s"
    using Cons by simp
  finally show ?case by simp
qed

lemma splitFrom_Nil: "splitFrom r cur [] = [rev cur]"
  by (subst splitFrom.simps) simp

lemma split_re_none:
  "\<forall>c \<in> set p. \<forall>t. rmatch r (c # t, []) = [] \<Longrightarrow> split_re r p = [p]"
  using splitFrom_skip [of p r "[]" "[]"] by (simp add: split_re_def splitFrom_Nil)

lemma blankLine_no_start: "c \<noteq> CHR 0x0A \<Longrightarrow> rmatch blankLine (c # t, []) = []"
  by (simp add: blankLine_def seqs_def)

lemma blankLine_double:
  "\<not> isWs c \<Longrightarrow>
   rmatch blankLine (CHR 0x0A # CHR 0x0A # c # t, []) = [(c # t, [])]"
  by (simp add: blankLine_def seqs_def star_atom_Cons isWs_def)

lemma sentenceEnd_no_start: "c \<notin> set ''.!?'' \<Longrightarrow> rmatch sentenceEnd (c # t, []) = []"
  by (simp add: sentenceEnd_def rplus_def)

lemma collapseWs_skip: "\<forall>c \<in> set p. \<not> isWs c \<Longrightarrow> collapseWs (p @ s) = p @ collapseWs s"
  by (induction p) (simp_all add: collapseWs_Cons)

lemma collapseWs_plain: "\<forall>c \<in> set p. \<not> isWs c \<Longrightarrow> collapseWs p = p"
  using collapseWs_skip [of p "[]"] by (simp add: collapseWs_Nil)

lemma trim_plain: "s \<noteq> [] \<Longrightarrow> \<not> isWs (hd s) \<Longrightarrow> \<not> isWs (last s) \<Longrightarrow> trim s = s"
proof -
  assume s: "s \<noteq> []" and h: "\<not> isWs (hd s)" and l: "\<not> isWs (last s)"
  from s h have "dropWhile isWs s = s" by (cases s) auto
  moreover from s l have "dropWhile isWs (rev s) = rev s"
    by (cases "rev s") (auto simp: last_rev [symmetric])
  ultimately show ?thesis by (simp add: trim_def)
qed

lemma nl_facts:
  "isWs (CHR 0x0A)" "\<not> isDigit (CHR 0x0A)" "toUpperAscii (CHR 0x0A) \<noteq> CHR ''A''"
  "isWs CHR '' ''" "CHR '' '' \<notin> set ''.!?''"
  by code_simp+

lemma plain_clean:
  assumes "s \<noteq> []" and "\<forall>c \<in> set s. plainChar c"
  shows "trim s = s" and "collapseWs s = s" and "firstSentence s = s"
proof -
  from assms have "\<not> isWs (hd s)" "\<not> isWs (last s)"
    by (simp_all add: plainChar_def)
  with assms(1) show t: "trim s = s" by (rule trim_plain)
  show "collapseWs s = s"
    using assms(2) by (intro collapseWs_plain) (simp add: plainChar_def)
  have "split_re sentenceEnd s = [s]"
    using assms(2) by (intro split_re_none) (simp add: plainChar_def sentenceEnd_no_start)
  then show "firstSentence s = s" by (simp add: firstSentence_def t)
qed

lemma two_paragraphs:
  assumes p: "p \<noteq> []" "\<forall>c \<in> set p. plainChar c" and q: "\<forall>c \<in> set (d # t). plainChar c"
  shows "selectMatches (p @ CHR 0x0A # CHR 0x0A # d # t) = []"
    and "split_re blankLine (p @ CHR 0x0A # CHR 0x0A # d # t) = [p, d # t]"
    and "trim (p @ CHR 0x0A # CHR 0x0A # d # t) = p @ CHR 0x0A # CHR 0x0A # d # t"
    and "collapseWs (p @ CHR 0x0A # CHR 0x0A # d # t) = p @ CHR '' '' # d # t"
    and "firstSentence (p @ CHR '' '' # d # t) = p @ CHR '' '' # d # t"
proof -
  let ?c = "p @ CHR 0x0A # CHR 0x0A # d # t"
  show "selectMatches ?c = []"
    using p q by (intro selectMatches_none) (auto simp: plainChar_def nl_facts)
  have pn: "\<forall>c \<in> set p. \<forall>u. rmatch blankLine (c # u, []) = []"
    using p(2) nl_facts(1) by (metis blankLine_no_start plainChar_def)
  have qn: "\<forall>c \<in> set (d # t). \<forall>u. rmatch blankLine (c # u, []) = []"
    using q nl_facts(1) by (metis blankLine_no_start plainChar_def)
  have d: "\<not> isWs d" using q by (simp add: plainChar_def)
  have "split_re blankLine ?c = splitFrom blankLine (rev p) (CHR 0x0A # CHR 0x0A # d # t)"
    using splitFrom_skip [OF pn, of "[]" "CHR 0x0A # CHR 0x0A # d # t"]
    by (simp add: split_re_def)
  also have "\<dots> = p # splitFrom blankLine [] (d # t)"
    by (subst splitFrom.simps) (simp add: blankLine_double [OF d])
  also have "splitFrom blankLine [] (d # t) = [d # t]"
    using split_re_none [OF qn] by (simp add: split_re_def)
  finally show "split_re blankLine ?c = [p, d # t]" .
  have "hd ?c = hd p" "last ?c = last (d # t)"
    using p(1) by simp_all
  moreover have "\<not> isWs (hd p)" "\<not> isWs (last (d # t))"
    using p q last_in_set [of "d # t"] by (simp_all add: plainChar_def)
  ultimately show "trim ?c = ?c"
    by (intro trim_plain) simp_all
  have "collapseWs ?c = p @ collapseWs (CHR 0x0A # CHR 0x0A # d # t)"
    using p(2) by (intro collapseWs_skip) (simp add: plainChar_def)
  also have "collapseWs (CHR 0x0A # CHR 0x0A # d # t) = CHR '' '' # collapseWs (d # t)"
    using d by (simp add: collapseWs_Cons nl_facts)
  also have "collapseWs (d # t) = d # t"
    using q by (intro collapseWs_plain) (simp add: plainChar_def)
  finally show "collapseWs ?c = p @ CHR '' '' # d # t" .
  let ?s = "p @ CHR '' '' # d # t"
  have sn: "\<forall>c \<in> set ?s. \<forall>u. rmatch sentenceEnd (c # u, []) = []"
    using p(2) q nl_facts(5) by (simp add: plainChar_def sentenceEnd_no_start ball_Un)
  have "hd ?s = hd p" "last ?s = last (d # t)"
    using p(1) by simp_all
  with \<open>\<not> isWs (hd p)\<close> \<open>\<not> isWs (last (d # t))\<close> have "trim ?s = ?s"
    by (intro trim_plain) simp_all
  then show "firstSentence ?s = ?s"
    using split_re_none [OF sn] by (simp add: firstSentence_def)
qed

lemma plain_xy: "plainChar (CHR ''x'')" "plainChar (CHR ''y'')"
  by code_simp+

lemma replicate_pred: "0 < n \<Longrightarrow> replicate n c = c # replicate (n - 1) c"
  by (cases n) simp_all

lemma titleOr_plain:
  "s \<noteq> [] \<Longrightarrow> length s \<le> 200 \<Longrightarrow> firstSentence s = s \<Longrightarrow> titleOr s fb = s"
  by (simp add: titleOr_def Let_def)

lemma segRecord_sample:
  "segRecord ''STD'' (JStr []) (JStr ''4.1'') ''fire'' ''1'' ttl body =
     Inr \<lparr>standard = ''STD'', directiveCode = JStr [], sectionCode = JStr ''4.1'',
          clauseId = JStr ''1'', title = ttl, text = JStr body, facilityClass = JStr [],
          domain = JStr ''fire'', tags = [], reference = JStr ''STD  4.1 1''\<rparr>"
proof -
  have "trim ''STD  4.1 1'' = ''STD  4.1 1''" by code_simp
  then show ?thesis
    by (simp add: segRecord_def template_def bindE_def joinSp_def)
qed

text \<open>
  \<open>paraText\<close> has 212 characters in two paragraphs of 150 and 60 characters: only the
  first is kept, and the result is its record.
\<close>

theorem paragraph_fallback_witness:
  "parseContentIntoClauses paraText ''STD'' (JStr []) (JStr ''4.1'') ''fire'' =
     Inr [\<lparr>standard = ''STD'', directiveCode = JStr [], sectionCode = JStr ''4.1'',
            clauseId = JStr ''1'', title = JStr (replicate 150 (CHR ''x'')),
            text = JStr (replicate 150 (CHR ''x'')), facilityClass = JStr [],
            domain = JStr ''fire'', tags = [], reference = JStr ''STD  4.1 1''\<rparr>]"
proof -
  let ?p = "replicate 150 (CHR ''x'')"
  let ?t = "replicate 59 (CHR ''y'')"
  let ?q = "CHR ''y'' # ?t"
  have c: "paraText = ?p @ CHR 0x0A # CHR 0x0A # ?q"
    by (simp add: paraText_def replicate_pred [of 60])
  have p: "?p \<noteq> []" "\<forall>c \<in> set ?p. plainChar c"
    by (simp_all add: plain_xy)
  have q: "\<forall>c \<in> set ?q. plainChar c"
    by (simp add: plain_xy)
  note tp = two_paragraphs [OF p q]
  have cp: "trim ?p = ?p" "collapseWs ?p = ?p" "firstSentence ?p = ?p"
    using plain_clean [OF p] by simp_all
  have cq: "trim ?q = ?q"
    using plain_clean(1) [of ?q] q by simp
  have h1: "trim paraText \<noteq> []"
    unfolding c tp(3) by simp
  have h2: "matchRecords ''STD'' (JStr []) (JStr ''4.1'') ''fire'' 0 (selectMatches paraText)
              = Inr []"
    unfolding c tp(1) by simp
  have h3: "200 < length paraText"
    by (simp add: paraText_def)
  have ps: "filter (\<lambda>p. 100 < length (trim p)) (split_re blankLine paraText) = [?p]"
    unfolding c tp(2) by (simp add: cp cq)
  have r: "paragraphRecord ''STD'' (JStr []) (JStr ''4.1'') ''fire'' 0 ?p
             = segRecord ''STD'' (JStr []) (JStr ''4.1'') ''fire'' ''1'' (JStr ?p) ?p"
    by (simp add: paragraphRecord_def cp titleOr_plain showNat_1)
  from paragraph_fallback [OF h1 h2] h3
  have "parseContentIntoClauses paraText ''STD'' (JStr []) (JStr ''4.1'') ''fire'' =
        (let paragraphs = filter (\<lambda>p. 100 < length (trim p)) (split_re blankLine paraText);
             minLen = (if 3 < length paragraphs then 100 else 50);
             surviving = filter (\<lambda>(i, p). minLen < length (collapseWs (trim p)))
                           (enumerate 0 paragraphs)
         in if surviving \<noteq> []
            then sequenceE (map (\<lambda>(i, p).
                   paragraphRecord ''STD'' (JStr []) (JStr ''4.1'') ''fire'' i p) surviving)
            else bindE (wholeRecord paraText ''STD'' (JStr []) (JStr ''4.1'') ''fire'')
                   (\<lambda>r. Inr [r]))"
    by blast
  then show ?thesis
    unfolding ps by (simp add: Let_def cp r segRecord_sample bindE_def)
qed

text \<open>
  C5 as stated fails on \<open>shortParaText\<close>, 132 characters in two paragraphs of 120 and 10
  characters on which no pattern matches: paragraph splitting would give the record of the
  first paragraph, but the text is not longer than 200 characters and the segmenter
  returns the whole-text record, both paragraphs joined by a space.
\<close>

theorem paragraph_fallback_counterexample:
  "selectMatches shortParaText = []
   \<and> paragraphRecords shortParaText ''STD'' (JStr []) (JStr ''4.1'') ''fire'' =
       Inr [\<lparr>standard = ''STD'', directiveCode = JStr [], sectionCode = JStr ''4.1'',
              clauseId = JStr ''1'', title = JStr (replicate 120 (CHR ''x'')),
              text = JStr (replicate 120 (CHR ''x'')), facilityClass = JStr [],
              domain = JStr ''fire'', tags = [], reference = JStr ''STD  4.1 1''\<rparr>]
   \<and> parseContentIntoClauses shortParaText ''STD'' (JStr []) (JStr ''4.1'') ''fire'' =
       Inr [\<lparr>standard = ''STD'', directiveCode = JStr [], sectionCode = JStr ''4.1'',
              clauseId = JStr ''1'',
              title = JStr (replicate 120 (CHR ''x'') @ '' '' @ replicate 10 (CHR ''y'')),
              text = JStr (replicate 120 (CHR ''x'') @ '' '' @ replicate 10 (CHR ''y'')),
              facilityClass = JStr [], domain = JStr ''fire'', tags = [],
              reference = JStr ''STD  4.1 1''\<rparr>]
   \<and> parseContentIntoClauses shortParaText ''STD'' (JStr []) (JStr ''4.1'') ''fire''
       \<noteq> paragraphRecords shortParaText ''STD'' (JStr []) (JStr ''4.1'') ''fire''"
proof -
  let ?p = "replicate 120 (CHR ''x'')"
  let ?t = "replicate 9 (CHR ''y'')"
  let ?q = "CHR ''y'' # ?t"
  have q10: "replicate 10 (CHR ''y'') = ?q"
    by (simp add: replicate_pred [of 10])
  have c: "shortParaText = ?p @ CHR 0x0A # CHR 0x0A # ?q"
    by (simp add: shortParaText_def q10)
  have p: "?p \<noteq> []" "\<forall>c \<in> set ?p. plainChar c"
    by (simp_all add: plain_xy)
  have q: "\<forall>c \<in> set ?q. plainChar c"
    by (simp add: plain_xy)
  note tp = two_paragraphs [OF p q]
  have cp: "trim ?p = ?p" "collapseWs ?p = ?p" "firstSentence ?p = ?p"
    using plain_clean [OF p] by simp_all
  have cq: "trim ?q = ?q"
    using plain_clean(1) [of ?q] q by simp
  have s: "selectMatches shortParaText = []"
    unfolding c by (rule tp(1))
  have ps: "paragraphsOf shortParaText = [?p]"
    unfolding paragraphsOf_def c tp(2) by (simp add: cp cq)
  have a: "paragraphRecords shortParaText ''STD'' (JStr []) (JStr ''4.1'') ''fire'' =
       Inr [\<lparr>standard = ''STD'', directiveCode = JStr [], sectionCode = JStr ''4.1'',
              clauseId = JStr ''1'', title = JStr ?p, text = JStr ?p, facilityClass = JStr [],
              domain = JStr ''fire'', tags = [], reference = JStr ''STD  4.1 1''\<rparr>]"
    unfolding paragraphRecords_def ps
    by (simp add: Let_def cp titleOr_plain showNat_1 segRecord_sample bindE_def)
  have t: "trim shortParaText \<noteq> []"
    unfolding c tp(3) by simp
  have w: "wholeRecord shortParaText ''STD'' (JStr []) (JStr ''4.1'') ''fire'' =
       Inr \<lparr>standard = ''STD'', directiveCode = JStr [], sectionCode = JStr ''4.1'',
            clauseId = JStr ''1'', title = JStr (?p @ CHR '' '' # ?q),
            text = JStr (?p @ CHR '' '' # ?q), facilityClass = JStr [],
            domain = JStr ''fire'', tags = [], reference = JStr ''STD  4.1 1''\<rparr>"
    unfolding wholeRecord_def c tp(3) tp(4)
    by (simp add: Let_def tp(5) segRecord_sample)
  have b: "parseContentIntoClauses shortParaText ''STD'' (JStr []) (JStr ''4.1'') ''fire'' =
       Inr [\<lparr>standard = ''STD'', directiveCode = JStr [], sectionCode = JStr ''4.1'',
              clauseId = JStr ''1'', title = JStr (?p @ CHR '' '' # ?q),
              text = JStr (?p @ CHR '' '' # ?q), facilityClass = JStr [],
              domain = JStr ''fire'', tags = [], reference = JStr ''STD  4.1 1''\<rparr>]"
    using parse_cascade_or_fallback [OF t, of "''STD''" "JStr []" "JStr ''4.1''" "''fire''"]
    by (simp add: s fallbackRecords_def w bindE_def) (simp add: shortParaText_def)
  show ?thesis
    unfolding a b using s by (simp add: q10)
qed

end
